theory Spec2Isabelle
  imports Complex_Main "HOL-Library.Word"
begin

section \<open>K-means colour quantisation (clustering/k\_means.py)\<close>

text \<open>
  The script clusters the pixels of an image with a fixed number of rounds of
  K-means. The embedding follows the methods of class \<open>KMeans\<close>:
  \<open>_init_means\<close>, \<open>_get_nearest_means\<close>, \<open>_get_centroids\<close> and the
  loop and reconstruction of \<open>cluster\<close>. File input and output
  (\<open>_load_image\<close>, \<open>_image_from_numpy\<close>, saving, printing) are outside the
  model: the pixel array is an argument and the reconstructed array a result.

  Numbers. The script computes in float64. A value of that type is a finite
  number, an infinity or NaN; the two zeros are not told apart (they compare
  equal, and nothing in the script tells them apart). What NumPy's numeric
  operations return (their rounding, underflow and overflow, and the order in
  which a reduction adds) is not fixed by the script: the three operations it
  uses, the elementwise difference, the norm of a row and the mean of a
  column, are arguments of the model, gathered in a record. The theorems hold
  for every such record, or say what they need of it. Two records are
  defined: arithmetic without rounding, which is what float64 computes as
  long as every intermediate result is a float64 number, and arithmetic
  rounded to the nearest binary64 number.

  Arrays. The image is a two-dimensional array, modelled by its number of
  columns and the list of its rows; in a well-formed array each row has that
  many entries. A centroid array is the list of its rows. Labels, which the
  script keeps in a float array, are natural numbers.

  Randomness. \<open>np.random.choice(n, K, replace=False)\<close> returns the first
  \<open>K\<close> entries of \<open>permutation(n)\<close>. The permutation that the ambient
  random state yields is an argument \<open>perm\<close> of the model.

  Library. \<open>random.choice\<close>, \<open>argmin\<close>, \<open>astype\<close> and indexing are modelled
  by what they do in NumPy 1.17 and later.
\<close>

subsection \<open>Floating-point values and arrays\<close>

datatype np_float = Val real | PInf | NInf | NaN

type_synonym vec = "np_float list"

record ndarray =
  ncols :: nat
  rows :: "vec list"

datatype error = ValueError string | UnboundLocalError string | IndexError string

text \<open>The comparison \<open>a <= b\<close> of two floats: false when one of them is
  NaN.\<close>

fun fle :: "np_float \<Rightarrow> np_float \<Rightarrow> bool" where
  "fle NaN b = False"
| "fle a NaN = False"
| "fle NInf b = True"
| "fle a PInf = True"
| "fle (Val a) (Val b) = (a \<le> b)"
| "fle PInf b = False"
| "fle a NInf = False"

text \<open>The numeric operations of NumPy that the script calls:
  \<open>a - b\<close> on two numbers (applied elementwise by \<open>img[i] - means\<close>),
  \<open>np.linalg.norm\<close> of one row, and \<open>mean\<close> of one column.\<close>

record numerics =
  np_subtract :: "np_float \<Rightarrow> np_float \<Rightarrow> np_float"
  np_norm :: "vec \<Rightarrow> np_float"
  np_mean :: "np_float list \<Rightarrow> np_float"

text \<open>\<open>np.argmin\<close> on a one-dimensional float array, as its loop is
  written: the scan keeps the least value seen and its first position,
  replaces them when \<open>mp <= x\<close> is false, and stops at the first NaN; an
  empty array raises \<open>ValueError\<close>.\<close>

fun argmin_loop :: "np_float \<Rightarrow> nat \<Rightarrow> nat \<Rightarrow> np_float list \<Rightarrow> nat" where
  "argmin_loop mp min_ind i [] = min_ind"
| "argmin_loop mp min_ind i (x # xs) =
     (if \<not> fle mp x
      then (if x = NaN then i else argmin_loop x i (Suc i) xs)
      else argmin_loop mp min_ind (Suc i) xs)"

fun argmin :: "np_float list \<Rightarrow> error + nat" where
  "argmin [] = Inl (ValueError ''attempt to get argmin of an empty sequence'')"
| "argmin (x # xs) = (if x = NaN then Inr 0 else Inr (argmin_loop x 0 1 xs))"

text \<open>\<open>a[idx, :]\<close> with an integer index array: the rows at the given
  positions, \<open>IndexError\<close> when a position is out of bounds.\<close>

definition take_rows :: "vec list \<Rightarrow> nat list \<Rightarrow> error + vec list" where
  "take_rows a idx =
     (if list_all (\<lambda>i. i < length a) idx then Inr (map (\<lambda>i. a ! i) idx)
      else Inl (IndexError ''index is out of bounds''))"

text \<open>\<open>a[labels == k]\<close> for a mask as long as the array: the rows whose
  label equals \<open>k\<close>, in order.\<close>

definition select_rows :: "vec list \<Rightarrow> nat list \<Rightarrow> nat \<Rightarrow> vec list" where
  "select_rows a labels k = map fst (filter (\<lambda>(p, l). l = k) (zip a labels))"

text \<open>\<open>mean(axis=0)\<close> of an array of \<open>c\<close> columns: the mean of each
  column.\<close>

definition mean_axis0 :: "numerics \<Rightarrow> nat \<Rightarrow> vec list \<Rightarrow> vec" where
  "mean_axis0 L c rs = map (\<lambda>j. np_mean L (map (\<lambda>r. r ! j) rs)) [0..<c]"

text \<open>\<open>np.linalg.norm(p - means, axis=1)\<close>: for each row \<open>m\<close> of
  \<open>means\<close>, the norm of the elementwise difference of the point \<open>p\<close> and
  \<open>m\<close>, the computed distance of the two.\<close>

definition distance :: "numerics \<Rightarrow> vec \<Rightarrow> vec \<Rightarrow> np_float" where
  "distance L p m = np_norm L (map2 (np_subtract L) p m)"

definition dists :: "numerics \<Rightarrow> vec \<Rightarrow> vec list \<Rightarrow> np_float list" where
  "dists L p means = map (distance L p) means"

text \<open>\<open>labels.astype(np.uint8)\<close> on an integer-valued float: the value is
  truncated to its low eight bits, so 256 and more wrap around (the result of
  the conversion on x86-64).\<close>

definition astype_uint8 :: "nat \<Rightarrow> 8 word" where
  "astype_uint8 a = of_nat a"

subsection \<open>The methods of KMeans\<close>

text \<open>\<open>np.random.choice(pop_size, sz, replace=False)\<close>, given the
  permutation drawn from the random state.\<close>

definition random_choice :: "nat \<Rightarrow> int \<Rightarrow> nat list \<Rightarrow> error + nat list" where
  "random_choice pop_size sz perm =
     (if pop_size = 0 \<and> sz \<noteq> 0
        then Inl (ValueError ''a must be greater than 0 unless no samples are taken'')
      else if sz > int pop_size
        then Inl (ValueError ''Cannot take a larger sample than population'')
      else if sz < 0
        then Inl (ValueError ''negative dimensions are not allowed'')
      else Inr (take (nat sz) perm))"

definition init_means :: "ndarray \<Rightarrow> int \<Rightarrow> nat list \<Rightarrow> error + vec list" where
  "init_means img K perm =
     (case random_choice (length (rows img)) K perm of
        Inl e \<Rightarrow> Inl e
      | Inr idx \<Rightarrow> take_rows (rows img) idx)"

text \<open>The loop of \<open>_get_nearest_means\<close> over the pixels, first pixel
  first.\<close>

fun nearest_loop :: "numerics \<Rightarrow> vec list \<Rightarrow> vec list \<Rightarrow> error + nat list" where
  "nearest_loop L [] means = Inr []"
| "nearest_loop L (p # ps) means =
     (case argmin (dists L p means) of
        Inl e \<Rightarrow> Inl e
      | Inr l \<Rightarrow>
          (case nearest_loop L ps means of
             Inl e \<Rightarrow> Inl e
           | Inr ls \<Rightarrow> Inr (l # ls)))"

definition get_nearest_means :: "numerics \<Rightarrow> ndarray \<Rightarrow> vec list \<Rightarrow> error + nat list" where
  "get_nearest_means L img means = nearest_loop L (rows img) means"

text \<open>\<open>_get_centroids\<close>. The mask \<open>labels == k\<close> must be as long as the
  image: otherwise the first selection raises \<open>IndexError\<close>. With
  \<open>K \<le> 0\<close> no selection is made.\<close>

definition get_centroids :: "numerics \<Rightarrow> ndarray \<Rightarrow> nat list \<Rightarrow> int \<Rightarrow> error + vec list" where
  "get_centroids L img labels K =
     (if 0 < K \<and> length labels \<noteq> length (rows img)
      then Inl (IndexError ''boolean index did not match indexed array'')
      else Inr (map (\<lambda>k. mean_axis0 L (ncols img) (select_rows (rows img) labels k))
                  [0..<nat K]))"

text \<open>The loop of \<open>cluster\<close>. The state is the pair of the local variables
  \<open>centroids\<close> and \<open>labels\<close>; \<open>labels\<close> is unbound (\<open>None\<close>) before the
  first round.\<close>

fun cluster_loop ::
  "numerics \<Rightarrow> nat \<Rightarrow> ndarray \<Rightarrow> int \<Rightarrow> vec list \<times> nat list option \<Rightarrow>
   error + vec list \<times> nat list option" where
  "cluster_loop L 0 img K st = Inr st"
| "cluster_loop L (Suc n) img K (centroids, labels) =
     (case get_nearest_means L img centroids of
        Inl e \<Rightarrow> Inl e
      | Inr labels' \<Rightarrow>
          (case get_centroids L img labels' K of
             Inl e \<Rightarrow> Inl e
           | Inr new_centroids \<Rightarrow> cluster_loop L n img K (new_centroids, Some labels')))"

record cluster_result =
  centroids :: "vec list"
  labels :: "nat list"
  image_reconstructed :: "vec list"

text \<open>\<open>cluster\<close> up to the reconstructed array. After a round with
  \<open>K \<le> 0\<close> the centroid array is the one-dimensional \<open>np.array([])\<close>, which
  the two-index expression of the reconstruction rejects.\<close>

definition cluster ::
  "numerics \<Rightarrow> ndarray \<Rightarrow> int \<Rightarrow> int \<Rightarrow> nat list \<Rightarrow> error + cluster_result" where
  "cluster L img K iterations perm =
     (case init_means img K perm of
        Inl e \<Rightarrow> Inl e
      | Inr c0 \<Rightarrow>
          (case cluster_loop L (nat iterations) img K (c0, None) of
             Inl e \<Rightarrow> Inl e
           | Inr (cs, None) \<Rightarrow>
               Inl (UnboundLocalError ''local variable labels referenced before assignment'')
           | Inr (cs, Some ls) \<Rightarrow>
               if K \<le> 0 then Inl (IndexError ''too many indices for array'')
               else
                 (case take_rows cs (map (\<lambda>a. unat (astype_uint8 a)) ls) of
                    Inl e \<Rightarrow> Inl e
                  | Inr im \<Rightarrow>
                      Inr \<lparr>centroids = cs, labels = ls, image_reconstructed = im\<rparr>)))"

subsection \<open>Two arithmetics\<close>

text \<open>The operations on floats for a given rounding \<open>rnd\<close> of the exact
  result of an operation on two finite numbers; infinities and NaN follow
  IEEE 754.\<close>

fun fadd :: "(real \<Rightarrow> np_float) \<Rightarrow> np_float \<Rightarrow> np_float \<Rightarrow> np_float" where
  "fadd rnd (Val a) (Val b) = rnd (a + b)"
| "fadd rnd NaN b = NaN"
| "fadd rnd a NaN = NaN"
| "fadd rnd PInf NInf = NaN"
| "fadd rnd NInf PInf = NaN"
| "fadd rnd PInf b = PInf"
| "fadd rnd a PInf = PInf"
| "fadd rnd NInf b = NInf"
| "fadd rnd a NInf = NInf"

fun fsub :: "(real \<Rightarrow> np_float) \<Rightarrow> np_float \<Rightarrow> np_float \<Rightarrow> np_float" where
  "fsub rnd (Val a) (Val b) = rnd (a - b)"
| "fsub rnd NaN b = NaN"
| "fsub rnd a NaN = NaN"
| "fsub rnd PInf PInf = NaN"
| "fsub rnd NInf NInf = NaN"
| "fsub rnd PInf b = PInf"
| "fsub rnd NInf b = NInf"
| "fsub rnd a PInf = NInf"
| "fsub rnd a NInf = PInf"

fun fmul :: "(real \<Rightarrow> np_float) \<Rightarrow> np_float \<Rightarrow> np_float \<Rightarrow> np_float" where
  "fmul rnd (Val a) (Val b) = rnd (a * b)"
| "fmul rnd NaN b = NaN"
| "fmul rnd a NaN = NaN"
| "fmul rnd PInf PInf = PInf"
| "fmul rnd NInf NInf = PInf"
| "fmul rnd PInf NInf = NInf"
| "fmul rnd NInf PInf = NInf"
| "fmul rnd PInf (Val b) = (if b = 0 then NaN else if 0 < b then PInf else NInf)"
| "fmul rnd NInf (Val b) = (if b = 0 then NaN else if 0 < b then NInf else PInf)"
| "fmul rnd (Val a) PInf = (if a = 0 then NaN else if 0 < a then PInf else NInf)"
| "fmul rnd (Val a) NInf = (if a = 0 then NaN else if 0 < a then NInf else PInf)"

fun fsqrt :: "(real \<Rightarrow> np_float) \<Rightarrow> np_float \<Rightarrow> np_float" where
  "fsqrt rnd (Val a) = (if a < 0 then NaN else rnd (sqrt a))"
| "fsqrt rnd PInf = PInf"
| "fsqrt rnd NInf = NaN"
| "fsqrt rnd NaN = NaN"

text \<open>Division of a float by a count.\<close>

fun fdiv_count :: "(real \<Rightarrow> np_float) \<Rightarrow> np_float \<Rightarrow> nat \<Rightarrow> np_float" where
  "fdiv_count rnd (Val a) n =
     (if n = 0 then (if a = 0 then NaN else if 0 < a then PInf else NInf)
      else rnd (a / real n))"
| "fdiv_count rnd PInf n = PInf"
| "fdiv_count rnd NInf n = NInf"
| "fdiv_count rnd NaN n = NaN"

text \<open>A sum from left to right; the sum of no numbers is 0. (NumPy may add
  the terms of a reduction in another order; nothing below that is stated of
  the program depends on the order.)\<close>

fun fsum :: "(real \<Rightarrow> np_float) \<Rightarrow> np_float list \<Rightarrow> np_float" where
  "fsum rnd [] = Val 0"
| "fsum rnd (x # xs) = foldl (fadd rnd) x xs"

text \<open>The norm of a row is the square root of the sum of its squares; the
  mean of a column is its sum over its length, NaN for no elements.\<close>

definition norm_of :: "(real \<Rightarrow> np_float) \<Rightarrow> vec \<Rightarrow> np_float" where
  "norm_of rnd v = fsqrt rnd (fsum rnd (map (\<lambda>x. fmul rnd x x) v))"

definition mean_of :: "(real \<Rightarrow> np_float) \<Rightarrow> np_float list \<Rightarrow> np_float" where
  "mean_of rnd xs = fdiv_count rnd (fsum rnd xs) (length xs)"

definition numerics_of :: "(real \<Rightarrow> np_float) \<Rightarrow> numerics" where
  "numerics_of rnd = \<lparr>np_subtract = fsub rnd, np_norm = norm_of rnd, np_mean = mean_of rnd\<rparr>"

text \<open>Arithmetic without rounding.\<close>

definition exact :: numerics where
  "exact = numerics_of Val"

text \<open>Rounding to binary64, to the nearest number and to the even one of
  two nearest: the numbers are the multiples \<open>m * 2 ^ e\<close> with \<open>|m| < 2 ^ 53\<close>
  and \<open>-1074 \<le> e \<le> 971\<close>; a result of magnitude \<open>2 ^ 1024\<close> or more
  is an infinity.\<close>

definition round_half_even :: "real \<Rightarrow> int" where
  "round_half_even q =
     (let f = \<lfloor>q\<rfloor>; d = q - of_int f
      in if d < 1 / 2 then f else if 1 / 2 < d then f + 1
         else if even f then f else f + 1)"

definition round64 :: "real \<Rightarrow> np_float" where
  "round64 x =
     (if x = 0 then Val 0
      else
        let e = max (\<lfloor>log 2 \<bar>x\<bar>\<rfloor> - 52) (- 1074);
            y = of_int (round_half_even (x / 2 powr of_int e)) * 2 powr of_int e
        in if 2 ^ 1024 \<le> \<bar>y\<bar> then (if 0 < x then PInf else NInf) else Val y)"

definition binary64 :: numerics where
  "binary64 = numerics_of round64"

subsection \<open>Notions of the specification\<close>

text \<open>A well-formed array, and the array of a list of rows of numbers.\<close>

definition wf_array :: "ndarray \<Rightarrow> bool" where
  "wf_array a \<longleftrightarrow> list_all (\<lambda>r. length r = ncols a) (rows a)"

definition of_reals :: "nat \<Rightarrow> real list list \<Rightarrow> ndarray" where
  "of_reals c P = \<lparr>ncols = c, rows = map (map Val) P\<rparr>"

text \<open>The draw of the random state is a permutation of \<open>range(n)\<close>.\<close>

definition is_permutation :: "nat \<Rightarrow> nat list \<Rightarrow> bool" where
  "is_permutation n perm \<longleftrightarrow> length perm = n \<and> distinct perm \<and> list_all (\<lambda>i. i < n) perm"

text \<open>The centroids after \<open>i\<close> rounds of Assign followed by Recompute, each
  round taking the centroids of the round before.\<close>

fun centroids_after_rounds ::
  "numerics \<Rightarrow> ndarray \<Rightarrow> int \<Rightarrow> vec list \<Rightarrow> nat \<Rightarrow> error + vec list" where
  "centroids_after_rounds L P K C 0 = Inr C"
| "centroids_after_rounds L P K C (Suc i) =
     (case centroids_after_rounds L P K C i of
        Inl e \<Rightarrow> Inl e
      | Inr C' \<Rightarrow>
          (case get_nearest_means L P C' of
             Inl e \<Rightarrow> Inl e
           | Inr A \<Rightarrow> get_centroids L P A K))"

text \<open>The lowest index at which a list of floats takes its minimum.\<close>

definition first_minimum :: "np_float list \<Rightarrow> nat \<Rightarrow> bool" where
  "first_minimum ds j \<longleftrightarrow>
     j < length ds \<and> list_all (\<lambda>d. fle (ds ! j) d) ds \<and>
     list_all (\<lambda>d. \<not> fle d (ds ! j)) (take j ds)"

text \<open>The lowest index at which a list of floats is NaN.\<close>

definition first_nan :: "np_float list \<Rightarrow> nat \<Rightarrow> bool" where
  "first_nan ds j \<longleftrightarrow> j < length ds \<and> ds ! j = NaN \<and> list_all (\<lambda>d. d \<noteq> NaN) (take j ds)"

text \<open>Euclidean distance of two points, the indices of the points assigned
  to cluster \<open>k\<close>, and the arithmetic mean of a list of numbers.\<close>

definition euclidean :: "real list \<Rightarrow> real list \<Rightarrow> real" where
  "euclidean p q = sqrt (\<Sum>(a, b)\<leftarrow>zip p q. (a - b)\<^sup>2)"

definition members :: "nat list \<Rightarrow> nat \<Rightarrow> nat list" where
  "members A k = filter (\<lambda>i. A ! i = k) [0..<length A]"

definition arithmetic_mean :: "real list \<Rightarrow> real" where
  "arithmetic_mean xs = sum_list xs / real (length xs)"

section \<open>Properties\<close>

subsection \<open>The order of floats\<close>

lemma fle_not_nan: "fle a b \<Longrightarrow> a \<noteq> NaN \<and> b \<noteq> NaN"
  by (cases a; cases b) simp_all

lemma fle_refl: "a \<noteq> NaN \<Longrightarrow> fle a a"
  by (cases a) simp_all

lemma fle_trans: "fle a b \<Longrightarrow> fle b c \<Longrightarrow> fle a c"
  by (cases a; cases b; cases c) simp_all

lemma fle_linear: "a \<noteq> NaN \<Longrightarrow> b \<noteq> NaN \<Longrightarrow> fle a b \<or> fle b a"
  by (cases a; cases b) auto

lemma fle_antisym: "fle a b \<Longrightarrow> fle b a \<Longrightarrow> a = b"
  by (cases a; cases b) simp_all

subsection \<open>Nearest means: totality, length and range\<close>

lemma argmin_loop_less:
  "min_ind < i \<Longrightarrow> argmin_loop mp min_ind i xs < i + length xs"
  by (induction mp min_ind i xs rule: argmin_loop.induct) auto

lemma argmin_less: "argmin xs = Inr j \<Longrightarrow> j < length xs"
  using argmin_loop_less [of 0 1]
  by (cases xs) (auto split: if_splits)

lemma argmin_total: "xs \<noteq> [] \<Longrightarrow> \<exists>j. argmin xs = Inr j"
  by (cases xs) auto

lemma length_dists: "length (dists L p means) = length means"
  by (simp add: dists_def)

lemma nearest_loop_length:
  "nearest_loop L ps means = Inr A \<Longrightarrow> length A = length ps"
  by (induction ps arbitrary: A) (auto split: sum.splits)

lemma nearest_loop_range:
  "nearest_loop L ps means = Inr A \<Longrightarrow> a \<in> set A \<Longrightarrow> a < length means"
  by (induction ps arbitrary: A) (auto split: sum.splits dest!: argmin_less simp: length_dists)

lemma nearest_loop_total:
  "means \<noteq> [] \<Longrightarrow> \<exists>A. nearest_loop L ps means = Inr A"
proof (induction ps)
  case Nil
  then show ?case by simp
next
  case (Cons p ps)
  then obtain A where A: "nearest_loop L ps means = Inr A" by blast
  from Cons.prems have "dists L p means \<noteq> []" by (simp add: dists_def)
  then obtain j where "argmin (dists L p means) = Inr j"
    using argmin_total by blast
  with A show ?case by simp
qed

lemma nearest_loop_nth:
  "nearest_loop L ps means = Inr A \<Longrightarrow> i < length ps \<Longrightarrow>
   argmin (dists L (ps ! i) means) = Inr (A ! i)"
proof (induction ps arbitrary: A i)
  case Nil
  then show ?case by simp
next
  case (Cons p ps)
  from Cons.prems(1) obtain l ls where
    l: "argmin (dists L p means) = Inr l"
    and ls: "nearest_loop L ps means = Inr ls"
    and A: "A = l # ls"
    by (auto split: sum.splits)
  show ?case
  proof (cases i)
    case 0
    with l A show ?thesis by simp
  next
    case (Suc i')
    with Cons.prems(2) have "i' < length ps" by simp
    from Cons.IH [OF ls this] Suc A show ?thesis by simp
  qed
qed

lemma get_nearest_means_length:
  "get_nearest_means L img means = Inr A \<Longrightarrow> length A = length (rows img)"
  unfolding get_nearest_means_def by (rule nearest_loop_length)

lemma get_nearest_means_range:
  "get_nearest_means L img means = Inr A \<Longrightarrow> a \<in> set A \<Longrightarrow> a < length means"
  unfolding get_nearest_means_def by (rule nearest_loop_range)

lemma get_nearest_means_total:
  "means \<noteq> [] \<Longrightarrow> \<exists>A. get_nearest_means L img means = Inr A"
  unfolding get_nearest_means_def by (rule nearest_loop_total)

lemma get_nearest_means_nth:
  "get_nearest_means L img means = Inr A \<Longrightarrow> i < length (rows img) \<Longrightarrow>
   argmin (dists L (rows img ! i) means) = Inr (A ! i)"
  unfolding get_nearest_means_def by (rule nearest_loop_nth)

lemma get_centroids_ok:
  "length A = length (rows img) \<Longrightarrow>
   get_centroids L img A K =
     Inr (map (\<lambda>k. mean_axis0 L (ncols img) (select_rows (rows img) A k)) [0..<nat K])"
  by (simp add: get_centroids_def)

lemma get_centroids_length:
  "get_centroids L img A K = Inr C \<Longrightarrow> length C = nat K"
  by (auto simp: get_centroids_def split: if_splits)

lemma round_ok:
  assumes "means \<noteq> []"
  shows "\<exists>A C. get_nearest_means L img means = Inr A \<and> length A = length (rows img) \<and>
    get_centroids L img A K = Inr C \<and> length C = nat K"
proof -
  obtain A where A: "get_nearest_means L img means = Inr A"
    using get_nearest_means_total [OF assms] by blast
  have len: "length A = length (rows img)"
    by (rule get_nearest_means_length [OF A])
  from get_centroids_ok [OF len] A len show ?thesis by simp
qed

subsection \<open>The loop and the rounds\<close>

lemma centroids_after_rounds_shift:
  "centroids_after_rounds L P K C (Suc i) =
     (case get_nearest_means L P C of
        Inl e \<Rightarrow> Inl e
      | Inr A \<Rightarrow>
          (case get_centroids L P A K of
             Inl e \<Rightarrow> Inl e
           | Inr C' \<Rightarrow> centroids_after_rounds L P K C' i))"
proof (induction i)
  case 0
  show ?case by (simp split: sum.splits)
next
  case (Suc i)
  have "centroids_after_rounds L P K C (Suc (Suc i)) =
      (case centroids_after_rounds L P K C (Suc i) of
        Inl e \<Rightarrow> Inl e
      | Inr C' \<Rightarrow>
          (case get_nearest_means L P C' of
             Inl e \<Rightarrow> Inl e
           | Inr A \<Rightarrow> get_centroids L P A K))"
    by (rule centroids_after_rounds.simps(2))
  also have "\<dots> = (case get_nearest_means L P C of
        Inl e \<Rightarrow> Inl e
      | Inr A \<Rightarrow>
          (case get_centroids L P A K of
             Inl e \<Rightarrow> Inl e
           | Inr C' \<Rightarrow> centroids_after_rounds L P K C' (Suc i)))"
    unfolding Suc.IH by (simp split: sum.splits)
  finally show ?case .
qed

lemma cluster_loop_rounds:
  "cluster_loop L (Suc m) img K (C0, l0) =
     (case centroids_after_rounds L img K C0 m of
        Inl e \<Rightarrow> Inl e
      | Inr Cm \<Rightarrow>
          (case get_nearest_means L img Cm of
             Inl e \<Rightarrow> Inl e
           | Inr A \<Rightarrow>
               (case get_centroids L img A K of
                  Inl e \<Rightarrow> Inl e
                | Inr C \<Rightarrow> Inr (C, Some A))))"
proof (induction m arbitrary: C0 l0)
  case 0
  show ?case by (simp split: sum.splits)
next
  case (Suc m)
  have "cluster_loop L (Suc (Suc m)) img K (C0, l0) =
      (case get_nearest_means L img C0 of
        Inl e \<Rightarrow> Inl e
      | Inr A \<Rightarrow>
          (case get_centroids L img A K of
             Inl e \<Rightarrow> Inl e
           | Inr C \<Rightarrow> cluster_loop L (Suc m) img K (C, Some A)))"
    by (rule cluster_loop.simps(2))
  also have "\<dots> = (case centroids_after_rounds L img K C0 (Suc m) of
        Inl e \<Rightarrow> Inl e
      | Inr Cm \<Rightarrow>
          (case get_nearest_means L img Cm of
             Inl e \<Rightarrow> Inl e
           | Inr A \<Rightarrow>
               (case get_centroids L img A K of
                  Inl e \<Rightarrow> Inl e
                | Inr C \<Rightarrow> Inr (C, Some A))))"
    unfolding Suc.IH centroids_after_rounds_shift [of L img K C0 m]
    by (simp split: sum.splits)
  finally show ?case .
qed

lemma centroids_after_rounds_total:
  "1 \<le> K \<Longrightarrow> length C = nat K \<Longrightarrow>
   \<exists>C'. centroids_after_rounds L P K C i = Inr C' \<and> length C' = nat K"
proof (induction i)
  case 0
  then show ?case by simp
next
  case (Suc i)
  then obtain C' where C': "centroids_after_rounds L P K C i = Inr C'" "length C' = nat K"
    by blast
  with Suc.prems have "C' \<noteq> []" by auto
  from round_ok [OF this, of L P K] C' show ?case by auto
qed

subsection \<open>Initialisation and the whole run on valid arguments\<close>

lemma unat_astype_uint8: "unat (astype_uint8 a) = a mod 256"
  by (simp add: astype_uint8_def unat_of_nat)

lemma random_choice_ok:
  "0 \<le> K \<Longrightarrow> K \<le> int n \<Longrightarrow> random_choice n K perm = Inr (take (nat K) perm)"
  by (auto simp: random_choice_def)

lemma is_permutation_take:
  assumes "is_permutation n perm"
  shows "length (take k perm) = min k n" "distinct (take k perm)"
    "list_all (\<lambda>i. i < n) (take k perm)"
  using assms by (auto simp: is_permutation_def list_all_iff dest: in_set_takeD)

lemma init_means_ok:
  assumes "0 \<le> K" "K \<le> int (length (rows img))" "is_permutation (length (rows img)) perm"
  shows "init_means img K perm = Inr (map (\<lambda>i. rows img ! i) (take (nat K) perm))"
  using assms is_permutation_take(3) [OF assms(3), of "nat K"]
  by (simp add: init_means_def random_choice_ok take_rows_def)

lemma take_rows_labels:
  assumes "\<forall>a\<in>set A. a < length cs"
  shows "take_rows cs (map (\<lambda>a. unat (astype_uint8 a)) A) =
    Inr (map (\<lambda>a. cs ! (a mod 256)) A)"
proof -
  have "a mod 256 < length cs" if "a \<in> set A" for a
    using assms that by (meson le_less_trans mod_less_eq_dividend)
  then show ?thesis
    by (simp add: take_rows_def unat_astype_uint8 list_all_iff)
qed

lemma cluster_valid:
  assumes K: "1 \<le> K" "K \<le> int (length (rows img))"
    and perm: "is_permutation (length (rows img)) perm"
    and it: "1 \<le> iterations"
  shows "\<exists>Cm A C.
     centroids_after_rounds L img K (map (\<lambda>i. rows img ! i) (take (nat K) perm))
       (nat iterations - 1) = Inr Cm \<and>
     length Cm = nat K \<and>
     get_nearest_means L img Cm = Inr A \<and>
     get_centroids L img A K = Inr C \<and>
     cluster L img K iterations perm =
       Inr \<lparr>centroids = C, labels = A,
            image_reconstructed = map (\<lambda>a. C ! (a mod 256)) A\<rparr>"
proof -
  let ?C0 = "map (\<lambda>i. rows img ! i) (take (nat K) perm)"
  have init: "init_means img K perm = Inr ?C0"
    using K perm by (intro init_means_ok) auto
  have len0: "length ?C0 = nat K"
    using K is_permutation_take(1) [OF perm, of "nat K"] by simp
  obtain m where m: "nat iterations = Suc m"
    using it by (cases "nat iterations") auto
  obtain Cm where Cm: "centroids_after_rounds L img K ?C0 m = Inr Cm" "length Cm = nat K"
    using centroids_after_rounds_total [OF K(1) len0] by blast
  with K have "Cm \<noteq> []" by auto
  from round_ok [OF this, of L img K] obtain A C where
    A: "get_nearest_means L img Cm = Inr A"
    and C: "get_centroids L img A K = Inr C" "length C = nat K"
    by blast
  have rng: "\<forall>a\<in>set A. a < length C"
    using get_nearest_means_range [OF A] Cm(2) C(2) by simp
  have loop: "cluster_loop L (nat iterations) img K (?C0, None) = Inr (C, Some A)"
    unfolding m cluster_loop_rounds by (simp add: Cm A C)
  have "cluster L img K iterations perm =
       Inr \<lparr>centroids = C, labels = A,
            image_reconstructed = map (\<lambda>a. C ! (a mod 256)) A\<rparr>"
    using K(1) by (simp add: cluster_def init loop take_rows_labels [OF rng])
  with Cm A C m show ?thesis by simp
qed

subsection \<open>The run is a fixed number of rounds\<close>

text \<open>
  Claim C1. For a valid number of clusters (\<open>1 \<le> K \<le> n\<close>) and at least
  one iteration, \<open>cluster\<close> returns, and what it returns is this: the centroids
  are those after exactly \<open>iterations\<close> rounds of Assign then Recompute,
  each round starting from the centroids of the round before, and the labels
  are the result of the last Assign, which ran on the centroids after
  \<open>iterations - 1\<close> rounds; the returned centroids are the Recompute of those
  labels. This holds whatever the numeric operations compute.
\<close>

theorem cluster_performs_rounds:
  assumes "1 \<le> K" and "K \<le> int (length (rows img))"
    and "is_permutation (length (rows img)) perm"
    and "1 \<le> iterations"
  shows "\<exists>C0 Cm A C r.
     init_means img K perm = Inr C0 \<and>
     centroids_after_rounds L img K C0 (nat iterations - 1) = Inr Cm \<and>
     get_nearest_means L img Cm = Inr A \<and>
     get_centroids L img A K = Inr C \<and>
     centroids_after_rounds L img K C0 (nat iterations) = Inr C \<and>
     cluster L img K iterations perm = Inr r \<and>
     labels r = A \<and>
     centroids r = C"
proof -
  let ?C0 = "map (\<lambda>i. rows img ! i) (take (nat K) perm)"
  obtain Cm A C where run:
    "centroids_after_rounds L img K ?C0 (nat iterations - 1) = Inr Cm"
    "get_nearest_means L img Cm = Inr A"
    "get_centroids L img A K = Inr C"
    "cluster L img K iterations perm =
       Inr \<lparr>centroids = C, labels = A,
            image_reconstructed = map (\<lambda>a. C ! (a mod 256)) A\<rparr>"
    using cluster_valid [OF assms] by blast
  have init: "init_means img K perm = Inr ?C0"
    using assms by (intro init_means_ok) auto
  from assms(4) have "nat iterations = Suc (nat iterations - 1)" by simp
  then have "centroids_after_rounds L img K ?C0 (nat iterations) =
      centroids_after_rounds L img K ?C0 (Suc (nat iterations - 1))"
    by simp
  also have "\<dots> = Inr C"
    using run(1,2,3) by simp
  finally have last: "centroids_after_rounds L img K ?C0 (nat iterations) = Inr C" .
  show ?thesis
    using init run last by simp
qed

theorem cluster_performs_rounds_witness:
  "(1::int) \<le> 2 \<and>
   (2::int) \<le> int (length (rows (of_reals 2 [[0, 0], [0, 1], [10, 10], [10, 11]]))) \<and>
   is_permutation (length (rows (of_reals 2 [[0, 0], [0, 1], [10, 10], [10, 11]]))) [0, 2, 1, 3] \<and>
   (1::int) \<le> 5 \<and>
   (\<exists>C0 Cm A C r.
     init_means (of_reals 2 [[0, 0], [0, 1], [10, 10], [10, 11]]) 2 [0, 2, 1, 3] = Inr C0 \<and>
     centroids_after_rounds exact (of_reals 2 [[0, 0], [0, 1], [10, 10], [10, 11]]) 2 C0
       (nat 5 - 1) = Inr Cm \<and>
     get_nearest_means exact (of_reals 2 [[0, 0], [0, 1], [10, 10], [10, 11]]) Cm = Inr A \<and>
     get_centroids exact (of_reals 2 [[0, 0], [0, 1], [10, 10], [10, 11]]) A 2 = Inr C \<and>
     centroids_after_rounds exact (of_reals 2 [[0, 0], [0, 1], [10, 10], [10, 11]]) 2 C0
       (nat 5) = Inr C \<and>
     cluster exact (of_reals 2 [[0, 0], [0, 1], [10, 10], [10, 11]]) 2 5 [0, 2, 1, 3] = Inr r \<and>
     labels r = A \<and>
     centroids r = C)"
proof -
  let ?img = "of_reals 2 [[0, 0], [0, 1], [10, 10], [10, 11]]"
  have h1: "(1::int) \<le> 2" and h4: "(1::int) \<le> 5" by simp_all
  have h2: "(2::int) \<le> int (length (rows ?img))"
    by (simp add: of_reals_def)
  have h3: "is_permutation (length (rows ?img)) [0, 2, 1, 3]"
    by (simp add: of_reals_def is_permutation_def)
  show ?thesis
    using cluster_performs_rounds [OF h1 h2 h3 h4, of exact] h1 h2 h3 h4 by blast
qed

subsection \<open>Labels index a centroid\<close>

text \<open>
  Claim C5. With \<open>K \<ge> 1\<close> centroids at the start, the Assign step of every
  round returns, and each of the values it returns lies in \<open>[0, K)\<close>.
\<close>

theorem assignment_in_range:
  assumes "1 \<le> K" and "length C0 = nat K"
  shows "\<exists>Ci A.
     centroids_after_rounds L img K C0 i = Inr Ci \<and>
     get_nearest_means L img Ci = Inr A \<and>
     length A = length (rows img) \<and>
     (\<forall>a\<in>set A. 0 \<le> int a \<and> int a < K)"
proof -
  obtain Ci where Ci: "centroids_after_rounds L img K C0 i = Inr Ci" "length Ci = nat K"
    using centroids_after_rounds_total [OF assms] by blast
  with assms(1) have "Ci \<noteq> []" by auto
  then obtain A where A: "get_nearest_means L img Ci = Inr A"
    using get_nearest_means_total by blast
  have "int a < K" if "a \<in> set A" for a
    using get_nearest_means_range [OF A that] Ci(2) assms(1) by simp
  with Ci(1) A get_nearest_means_length [OF A] show ?thesis by simp
qed

theorem assignment_in_range_witness:
  "(1::int) \<le> 2 \<and> length [[Val 0, Val 0], [Val 10, Val 10]] = nat 2 \<and>
   (\<exists>Ci A.
     centroids_after_rounds exact (of_reals 2 [[0, 0], [0, 1], [10, 10], [10, 11]]) 2
       [[Val 0, Val 0], [Val 10, Val 10]] 3 = Inr Ci \<and>
     get_nearest_means exact (of_reals 2 [[0, 0], [0, 1], [10, 10], [10, 11]]) Ci = Inr A \<and>
     length A = length (rows (of_reals 2 [[0, 0], [0, 1], [10, 10], [10, 11]])) \<and>
     (\<forall>a\<in>set A. 0 \<le> int a \<and> int a < 2))"
proof -
  have h1: "(1::int) \<le> 2" by simp
  have h2: "length [[Val 0, Val 0], [Val 10, Val 10]] = nat 2" by simp
  show ?thesis
    using assignment_in_range [OF h1 h2] h1 h2 by blast
qed

subsection \<open>Invalid arguments\<close>

lemma random_choice_invalid:
  "K < 0 \<or> int n < K \<Longrightarrow> \<exists>msg. random_choice n K perm = Inl (ValueError msg)"
  by (auto simp: random_choice_def)

lemma init_means_invalid:
  "K < 0 \<or> int (length (rows img)) < K \<Longrightarrow> \<exists>msg. init_means img K perm = Inl (ValueError msg)"
  using random_choice_invalid [of K "length (rows img)" perm] by (auto simp: init_means_def)

lemma cluster_init_error: "init_means img K perm = Inl e \<Longrightarrow> cluster L img K iterations perm = Inl e"
  by (simp add: cluster_def)

text \<open>
  Claim C2, as the program has it. The program checks none of its arguments
  itself. A negative \<open>K\<close> or a \<open>K\<close> above the number of points is refused by
  the sampling of \<open>_init_means\<close> with a \<open>ValueError\<close>, before any round.
  With \<open>K = 0\<close> (and at least one point and one iteration) the initialisation
  succeeds with no centroids and the \<open>ValueError\<close> comes from \<open>np.argmin\<close>
  inside the first Assign. With an iteration count below one (and
  \<open>0 \<le> K \<le> n\<close>) the initialisation succeeds, the loop runs no round, and
  the run ends in an \<open>UnboundLocalError\<close> when the reconstruction reads
  \<open>labels\<close>.
\<close>

theorem invalid_arguments_fail:
  "(K < 0 \<or> int (length (rows img)) < K \<longrightarrow>
      (\<exists>msg. init_means img K perm = Inl (ValueError msg) \<and>
             cluster L img K iterations perm = Inl (ValueError msg))) \<and>
   (K = 0 \<and> rows img \<noteq> [] \<and> 1 \<le> iterations \<longrightarrow>
      init_means img K perm = Inr [] \<and>
      get_nearest_means L img [] = Inl (ValueError ''attempt to get argmin of an empty sequence'') \<and>
      cluster L img K iterations perm =
        Inl (ValueError ''attempt to get argmin of an empty sequence'')) \<and>
   (iterations < 1 \<and> 0 \<le> K \<and> K \<le> int (length (rows img)) \<and> is_permutation (length (rows img)) perm \<longrightarrow>
      (\<exists>C0. init_means img K perm = Inr C0 \<and>
            cluster_loop L (nat iterations) img K (C0, None) = Inr (C0, None)) \<and>
      cluster L img K iterations perm =
        Inl (UnboundLocalError ''local variable labels referenced before assignment''))"
proof (intro conjI impI)
  assume "K < 0 \<or> int (length (rows img)) < K"
  then obtain msg where "init_means img K perm = Inl (ValueError msg)"
    using init_means_invalid by blast
  then show "\<exists>msg. init_means img K perm = Inl (ValueError msg) \<and>
             cluster L img K iterations perm = Inl (ValueError msg)"
    using cluster_init_error by blast
next
  assume a: "K = 0 \<and> rows img \<noteq> [] \<and> 1 \<le> iterations"
  then show init: "init_means img K perm = Inr []"
    by (simp add: init_means_def random_choice_def take_rows_def)
  from a obtain p ps where img: "rows img = p # ps" by (cases "rows img") auto
  show gnm: "get_nearest_means L img [] = Inl (ValueError ''attempt to get argmin of an empty sequence'')"
    by (simp add: get_nearest_means_def img dists_def)
  from a obtain m where m: "nat iterations = Suc m" by (cases "nat iterations") auto
  show "cluster L img K iterations perm =
        Inl (ValueError ''attempt to get argmin of an empty sequence'')"
    by (simp add: cluster_def init m gnm)
next
  assume a: "iterations < 1 \<and> 0 \<le> K \<and> K \<le> int (length (rows img)) \<and> is_permutation (length (rows img)) perm"
  then have init: "init_means img K perm = Inr (map (\<lambda>i. rows img ! i) (take (nat K) perm))"
    by (intro init_means_ok) auto
  from a have n: "nat iterations = 0" by simp
  show "\<exists>C0. init_means img K perm = Inr C0 \<and>
            cluster_loop L (nat iterations) img K (C0, None) = Inr (C0, None)"
    by (simp add: init n)
  show "cluster L img K iterations perm =
        Inl (UnboundLocalError ''local variable labels referenced before assignment'')"
    by (simp add: cluster_def init n)
qed

theorem invalid_arguments_fail_witness:
  "((-1::int) < 0 \<or> int (length (rows \<lparr>ncols = 1, rows = [[Val 0]]\<rparr>)) < -1) \<and>
   (\<exists>msg. init_means \<lparr>ncols = 1, rows = [[Val 0]]\<rparr> (-1) [0] = Inl (ValueError msg) \<and>
          cluster exact \<lparr>ncols = 1, rows = [[Val 0]]\<rparr> (-1) 3 [0] = Inl (ValueError msg)) \<and>
   ((2::int) < 0 \<or> int (length (rows \<lparr>ncols = 1, rows = [[Val 0]]\<rparr>)) < 2) \<and>
   (\<exists>msg. init_means \<lparr>ncols = 1, rows = [[Val 0]]\<rparr> 2 [0] = Inl (ValueError msg) \<and>
          cluster exact \<lparr>ncols = 1, rows = [[Val 0]]\<rparr> 2 3 [0] = Inl (ValueError msg)) \<and>
   ((0::int) = 0 \<and> rows \<lparr>ncols = 1, rows = [[Val 0]]\<rparr> \<noteq> [] \<and> (1::int) \<le> 3) \<and>
   cluster exact \<lparr>ncols = 1, rows = [[Val 0]]\<rparr> 0 3 [0] =
     Inl (ValueError ''attempt to get argmin of an empty sequence'') \<and>
   ((0::int) < 1 \<and> (0::int) \<le> 1 \<and> 1 \<le> int (length (rows \<lparr>ncols = 1, rows = [[Val 0]]\<rparr>)) \<and>
      is_permutation (length (rows \<lparr>ncols = 1, rows = [[Val 0]]\<rparr>)) [0]) \<and>
   cluster exact \<lparr>ncols = 1, rows = [[Val 0]]\<rparr> 1 0 [0] =
     Inl (UnboundLocalError ''local variable labels referenced before assignment'')"
proof -
  let ?img = "\<lparr>ncols = 1, rows = [[Val 0]]\<rparr>"
  have h1: "(-1::int) < 0 \<or> int (length (rows ?img)) < -1" by simp
  have h2: "(2::int) < 0 \<or> int (length (rows ?img)) < 2" by simp
  have h3: "(0::int) = 0 \<and> rows ?img \<noteq> [] \<and> (1::int) \<le> 3" by simp
  have h4: "(0::int) < 1 \<and> (0::int) \<le> 1 \<and> 1 \<le> int (length (rows ?img)) \<and>
      is_permutation (length (rows ?img)) [0]"
    by (simp add: is_permutation_def)
  have c1: "\<exists>msg. init_means ?img (-1) [0] = Inl (ValueError msg) \<and>
          cluster exact ?img (-1) 3 [0] = Inl (ValueError msg)"
    by (rule invalid_arguments_fail [where K = "-1" and img = ?img and perm = "[0]"
          and L = exact and iterations = 3, THEN conjunct1, THEN mp, OF h1])
  have c2: "\<exists>msg. init_means ?img 2 [0] = Inl (ValueError msg) \<and>
          cluster exact ?img 2 3 [0] = Inl (ValueError msg)"
    by (rule invalid_arguments_fail [where K = 2 and img = ?img and perm = "[0]"
          and L = exact and iterations = 3, THEN conjunct1, THEN mp, OF h2])
  have c3: "cluster exact ?img 0 3 [0] =
      Inl (ValueError ''attempt to get argmin of an empty sequence'')"
    by (rule invalid_arguments_fail [where K = 0 and img = ?img and perm = "[0]"
          and L = exact and iterations = 3, THEN conjunct2, THEN conjunct1,
          THEN mp, OF h3, THEN conjunct2, THEN conjunct2])
  have c4: "cluster exact ?img 1 0 [0] =
      Inl (UnboundLocalError ''local variable labels referenced before assignment'')"
    by (rule invalid_arguments_fail [where K = 1 and img = ?img and perm = "[0]"
          and L = exact and iterations = 0, THEN conjunct2, THEN conjunct2,
          THEN mp, OF h4, THEN conjunct2])
  show ?thesis
    by (iprover intro: conjI h1 c1 h2 c2 h3 c3 h4 c4)
qed

text \<open>
  The claim as the specification states it fails: with one point, \<open>K = 1\<close>
  and zero iterations the initialisation has run and the error is an
  \<open>UnboundLocalError\<close>; with \<open>K = 0\<close> and one iteration the error is raised
  in the Assign step of the first round.
\<close>

theorem invalid_arguments_counterexample:
  "(0::int) < 1 \<and>
   init_means \<lparr>ncols = 1, rows = [[Val 0]]\<rparr> 1 [0] = Inr [[Val 0]] \<and>
   cluster exact \<lparr>ncols = 1, rows = [[Val 0]]\<rparr> 1 0 [0] =
     Inl (UnboundLocalError ''local variable labels referenced before assignment'') \<and>
   (0::int) \<le> 0 \<and>
   init_means \<lparr>ncols = 1, rows = [[Val 0]]\<rparr> 0 [0] = Inr [] \<and>
   get_nearest_means exact \<lparr>ncols = 1, rows = [[Val 0]]\<rparr> [] =
     Inl (ValueError ''attempt to get argmin of an empty sequence'') \<and>
   cluster exact \<lparr>ncols = 1, rows = [[Val 0]]\<rparr> 0 1 [0] =
     Inl (ValueError ''attempt to get argmin of an empty sequence'')"
  by (simp add: cluster_def init_means_def random_choice_def take_rows_def
      get_nearest_means_def dists_def)

subsection \<open>The initial sample\<close>

lemma permutations_with_prefix:
  assumes k: "k \<le> n" and len: "length idx = k" and dist: "distinct idx"
    and rng: "\<forall>i\<in>set idx. i < n"
  shows "{perm. is_permutation n perm \<and> take k perm = idx} =
    (\<lambda>ys. idx @ ys) ` {ys. length ys = n - k \<and> distinct ys \<and> set ys \<subseteq> {0..<n} - set idx}"
    (is "?S = ?f ` ?T")
proof (intro equalityI subsetI)
  fix perm
  assume "perm \<in> ?S"
  then have p: "length perm = n" "distinct perm" "\<forall>i\<in>set perm. i < n" and t: "take k perm = idx"
    by (simp_all add: is_permutation_def list_all_iff)
  have split: "perm = idx @ drop k perm"
    using t append_take_drop_id [of k perm] by simp
  have "distinct (take k perm @ drop k perm)" using p(2) by simp
  then have "distinct (drop k perm)" "set idx \<inter> set (drop k perm) = {}"
    unfolding t [symmetric] distinct_append by simp_all
  moreover have "set (drop k perm) \<subseteq> {0..<n}"
    using p(3) by (auto dest: in_set_dropD)
  moreover have "length (drop k perm) = n - k" using p(1) by simp
  ultimately have "drop k perm \<in> ?T" by auto
  with split show "perm \<in> ?f ` ?T" by blast
next
  fix perm
  assume "perm \<in> ?f ` ?T"
  then obtain ys where ys: "perm = idx @ ys" "length ys = n - k" "distinct ys"
    "set ys \<subseteq> {0..<n} - set idx"
    by auto
  have "length perm = n" using ys(1,2) len k by simp
  moreover have "distinct perm" using ys dist by auto
  moreover have "\<forall>i\<in>set perm. i < n" using ys rng by auto
  moreover have "take k perm = idx" using ys(1) len by simp
  ultimately show "perm \<in> ?S"
    by (simp add: is_permutation_def list_all_iff)
qed

lemma card_permutations_with_prefix:
  assumes k: "k \<le> n" and len: "length idx = k" and dist: "distinct idx"
    and rng: "\<forall>i\<in>set idx. i < n"
  shows "card {perm. is_permutation n perm \<and> take k perm = idx} = fact (n - k)"
proof -
  let ?B = "{0..<n} - set idx"
  let ?T = "{ys. length ys = n - k \<and> distinct ys \<and> set ys \<subseteq> ?B}"
  have sub: "set idx \<subseteq> {0..<n}" using rng by auto
  have cardB: "card ?B = n - k"
    using sub dist len by (simp add: card_Diff_subset distinct_card)
  have "card {perm. is_permutation n perm \<and> take k perm = idx} = card ((\<lambda>ys. idx @ ys) ` ?T)"
    by (simp only: permutations_with_prefix [OF assms])
  also have "\<dots> = card ?T"
    by (rule card_image) (simp add: inj_on_def)
  also have "\<dots> = \<Prod>{card ?B - (n - k) + 1 .. card ?B}"
    by (rule card_lists_distinct_length_eq) (simp_all add: cardB)
  also have "\<dots> = \<Prod>{1..n - k}"
    by (simp add: cardB)
  also have "\<dots> = fact (n - k)"
    by (simp add: fact_prod)
  finally show ?thesis .
qed

text \<open>
  Claim C6. For \<open>1 \<le> K \<le> n\<close> and a permutation of \<open>range(n)\<close> as the
  draw of the random state, \<open>_init_means\<close> returns the points at \<open>K\<close>
  indices that are pairwise different and below \<open>n\<close>: each initial centroid
  is a point, and no index is chosen twice. For \<open>K > n\<close> it fails with a
  \<open>ValueError\<close>. The sample is uniform in this sense: every list of \<open>K\<close>
  different indices below \<open>n\<close> is the sample of exactly \<open>(n - K)!\<close> of the
  \<open>n!\<close> permutations, so a uniformly drawn permutation gives every such
  list the same probability.
\<close>

theorem init_means_sample:
  "(1 \<le> K \<and> K \<le> int (length (rows img)) \<and> is_permutation (length (rows img)) perm \<longrightarrow>
      (\<exists>idx. random_choice (length (rows img)) K perm = Inr idx \<and>
             init_means img K perm = Inr (map (\<lambda>i. rows img ! i) idx) \<and>
             length idx = nat K \<and> distinct idx \<and> (\<forall>i\<in>set idx. i < length (rows img)))) \<and>
   (int (length (rows img)) < K \<longrightarrow> (\<exists>msg. init_means img K perm = Inl (ValueError msg))) \<and>
   (1 \<le> K \<and> K \<le> int (length (rows img)) \<and>
    length idx' = nat K \<and> distinct idx' \<and> (\<forall>i\<in>set idx'. i < length (rows img)) \<longrightarrow>
      card {p. is_permutation (length (rows img)) p \<and> random_choice (length (rows img)) K p = Inr idx'} =
        fact (length (rows img) - nat K))"
proof (intro conjI impI)
  assume a: "1 \<le> K \<and> K \<le> int (length (rows img)) \<and> is_permutation (length (rows img)) perm"
  let ?idx = "take (nat K) perm"
  have "random_choice (length (rows img)) K perm = Inr ?idx"
    using a by (intro random_choice_ok) auto
  moreover have "init_means img K perm = Inr (map (\<lambda>i. rows img ! i) ?idx)"
    using a by (intro init_means_ok) auto
  moreover have "length ?idx = nat K" "distinct ?idx" "\<forall>i\<in>set ?idx. i < length (rows img)"
    using a is_permutation_take [of "length (rows img)" perm "nat K"]
    by (auto simp: list_all_iff)
  ultimately show "\<exists>idx. random_choice (length (rows img)) K perm = Inr idx \<and>
             init_means img K perm = Inr (map (\<lambda>i. rows img ! i) idx) \<and>
             length idx = nat K \<and> distinct idx \<and> (\<forall>i\<in>set idx. i < length (rows img))"
    by blast
next
  assume "int (length (rows img)) < K"
  then show "\<exists>msg. init_means img K perm = Inl (ValueError msg)"
    using init_means_invalid by blast
next
  assume a: "1 \<le> K \<and> K \<le> int (length (rows img)) \<and>
    length idx' = nat K \<and> distinct idx' \<and> (\<forall>i\<in>set idx'. i < length (rows img))"
  then have rc: "random_choice (length (rows img)) K p = Inr (take (nat K) p)" for p
    by (intro random_choice_ok) auto
  from a have k: "nat K \<le> length (rows img)" by linarith
  have "card {p. is_permutation (length (rows img)) p \<and> take (nat K) p = idx'} =
      fact (length (rows img) - nat K)"
    using a by (intro card_permutations_with_prefix k) auto
  then show "card {p. is_permutation (length (rows img)) p \<and>
        random_choice (length (rows img)) K p = Inr idx'} = fact (length (rows img) - nat K)"
    by (simp add: rc)
qed


theorem init_means_sample_witness:
  "((1::int) \<le> 2 \<and> 2 \<le> int (length (rows (of_reals 2 [[0, 0], [0, 1], [10, 10], [10, 11]]))) \<and>
      is_permutation (length (rows (of_reals 2 [[0, 0], [0, 1], [10, 10], [10, 11]]))) [2, 0, 3, 1]) \<and>
   (\<exists>idx. random_choice (length (rows (of_reals 2 [[0, 0], [0, 1], [10, 10], [10, 11]]))) 2 [2, 0, 3, 1] = Inr idx \<and>
      init_means (of_reals 2 [[0, 0], [0, 1], [10, 10], [10, 11]]) 2 [2, 0, 3, 1] = Inr (map (\<lambda>i. rows (of_reals 2 [[0, 0], [0, 1], [10, 10], [10, 11]]) ! i) idx) \<and>
      length idx = nat 2 \<and> distinct idx \<and>
      (\<forall>i\<in>set idx. i < length (rows (of_reals 2 [[0, 0], [0, 1], [10, 10], [10, 11]])))) \<and>
   init_means (of_reals 2 [[0, 0], [0, 1], [10, 10], [10, 11]]) 2 [2, 0, 3, 1] = Inr [[Val 10, Val 10], [Val 0, Val 0]] \<and>
   int (length (rows (of_reals 2 [[0, 0], [0, 1], [10, 10], [10, 11]]))) < 5 \<and>
   (\<exists>msg. init_means (of_reals 2 [[0, 0], [0, 1], [10, 10], [10, 11]]) 5 [2, 0, 3, 1] = Inl (ValueError msg)) \<and>
   (length [2, 0 :: nat] = nat 2 \<and> distinct [2, 0 :: nat] \<and>
      list_all (\<lambda>i. i < length (rows (of_reals 2 [[0, 0], [0, 1], [10, 10], [10, 11]]))) [2, 0]) \<and>
   card {p. is_permutation (length (rows (of_reals 2 [[0, 0], [0, 1], [10, 10], [10, 11]]))) p \<and>
            random_choice (length (rows (of_reals 2 [[0, 0], [0, 1], [10, 10], [10, 11]]))) 2 p = Inr [2, 0]} =
     fact (length (rows (of_reals 2 [[0, 0], [0, 1], [10, 10], [10, 11]])) - nat 2)"
proof -
  let ?img = "of_reals 2 [[0, 0], [0, 1], [10, 10], [10, 11]]"
  have n: "length (rows ?img) = 4" by (simp add: of_reals_def)
  have h1: "(1::int) \<le> 2 \<and> 2 \<le> int (length (rows ?img)) \<and>
      is_permutation (length (rows ?img)) [2, 0, 3, 1]"
    by (simp add: n is_permutation_def)
  have h2: "int (length (rows ?img)) < 5" by (simp add: n)
  have h3: "(1::int) \<le> 2 \<and> 2 \<le> int (length (rows ?img)) \<and>
      length [2, 0 :: nat] = nat 2 \<and> distinct [2, 0 :: nat] \<and>
      (\<forall>i\<in>set [2, 0]. i < length (rows ?img))"
    by (simp add: n)
  have h3': "length [2, 0 :: nat] = nat 2 \<and> distinct [2, 0 :: nat] \<and>
      list_all (\<lambda>i. i < length (rows ?img)) [2, 0]"
    by (simp add: n)
  have ev: "init_means ?img 2 [2, 0, 3, 1] = Inr [[Val 10, Val 10], [Val 0, Val 0]]"
    by (simp add: init_means_def random_choice_def take_rows_def of_reals_def)
  have c1: "\<exists>idx. random_choice (length (rows ?img)) 2 [2, 0, 3, 1] = Inr idx \<and>
      init_means ?img 2 [2, 0, 3, 1] = Inr (map (\<lambda>i. rows ?img ! i) idx) \<and>
      length idx = nat 2 \<and> distinct idx \<and> (\<forall>i\<in>set idx. i < length (rows ?img))"
    by (rule init_means_sample [where K = 2 and img = ?img and perm = "[2, 0, 3, 1]",
          THEN conjunct1, THEN mp, OF h1])
  have c2: "\<exists>msg. init_means ?img 5 [2, 0, 3, 1] = Inl (ValueError msg)"
    by (rule init_means_sample [where K = 5 and img = ?img, THEN conjunct2, THEN conjunct1,
          THEN mp, OF h2])
  have c3: "card {p. is_permutation (length (rows ?img)) p \<and>
            random_choice (length (rows ?img)) 2 p = Inr [2, 0]} =
      fact (length (rows ?img) - nat 2)"
    by (rule init_means_sample [where K = 2 and img = ?img and idx' = "[2, 0]",
          THEN conjunct2, THEN conjunct2, THEN mp, OF h3])
  show ?thesis
    by (iprover intro: conjI h1 c1 ev h2 c2 h3' c3)
qed

subsection \<open>The nearest mean\<close>

lemma fle_nan_right: "\<not> fle a NaN"
  by (cases a) simp_all

lemma fle_less_trans: "\<not> fle a b \<Longrightarrow> \<not> fle c a \<Longrightarrow> a \<noteq> NaN \<Longrightarrow> b \<noteq> NaN \<Longrightarrow> c \<noteq> NaN \<Longrightarrow>
    \<not> fle c b"
  by (cases a; cases b; cases c) auto

lemma argmin_loop_min:
  "NaN \<notin> set xs \<Longrightarrow> mp \<noteq> NaN \<Longrightarrow> mi < i \<Longrightarrow> argmin_loop mp mi i xs = j \<Longrightarrow>
   (j = mi \<and> (\<forall>x\<in>set xs. fle mp x)) \<or>
   (i \<le> j \<and> j - i < length xs \<and> \<not> fle mp (xs ! (j - i)) \<and>
    (\<forall>x\<in>set xs. fle (xs ! (j - i)) x) \<and>
    (\<forall>x\<in>set (take (j - i) xs). \<not> fle x (xs ! (j - i))))"
proof (induction xs arbitrary: mp mi i)
  case Nil
  then show ?case by simp
next
  case (Cons x xs)
  from Cons.prems have x: "x \<noteq> NaN" and xs: "NaN \<notin> set xs" by auto
  show ?case
  proof (cases "fle mp x")
    case False
    with Cons.prems x have run: "argmin_loop x i (Suc i) xs = j" by simp
    from Cons.IH [OF xs x _ run] consider
      (here) "j = i" "\<forall>y\<in>set xs. fle x y"
      | (later) "Suc i \<le> j" "j - Suc i < length xs" "\<not> fle x (xs ! (j - Suc i))"
        "\<forall>y\<in>set xs. fle (xs ! (j - Suc i)) y"
        "\<forall>y\<in>set (take (j - Suc i) xs). \<not> fle y (xs ! (j - Suc i))"
      by auto
    then show ?thesis
    proof cases
      case here
      with False x show ?thesis by (simp add: fle_refl)
    next
      case later
      let ?v = "xs ! (j - Suc i)"
      from later(1) have idx: "j - i = Suc (j - Suc i)" by simp
      from later(2) xs have v: "?v \<noteq> NaN" by (metis nth_mem)
      from later(3) x v have vx: "fle ?v x" using fle_linear by blast
      have "\<not> fle mp ?v"
        using vx False fle_trans by blast
      with later vx idx show ?thesis by auto
    qed
  next
    case True
    with Cons.prems have run: "argmin_loop mp mi (Suc i) xs = j" by simp
    from Cons.prems(3) have "mi < Suc i" by simp
    from Cons.IH [OF xs Cons.prems(2) this run] consider
      (keep) "j = mi" "\<forall>y\<in>set xs. fle mp y"
      | (later) "Suc i \<le> j" "j - Suc i < length xs" "\<not> fle mp (xs ! (j - Suc i))"
        "\<forall>y\<in>set xs. fle (xs ! (j - Suc i)) y"
        "\<forall>y\<in>set (take (j - Suc i) xs). \<not> fle y (xs ! (j - Suc i))"
      by auto
    then show ?thesis
    proof cases
      case keep
      with True show ?thesis by auto
    next
      case later
      let ?v = "xs ! (j - Suc i)"
      from later(1) have idx: "j - i = Suc (j - Suc i)" by simp
      from later(2) xs have v: "?v \<noteq> NaN" by (metis nth_mem)
      from later(3) v Cons.prems(2) have "fle ?v mp" using fle_linear by blast
      with True have vx: "fle ?v x" using fle_trans by blast
      have "\<not> fle x ?v"
        using True later(3) fle_trans by blast
      with later vx idx show ?thesis by auto
    qed
  qed
qed

lemma argmin_first_minimum:
  assumes "NaN \<notin> set ds" and "argmin ds = Inr j"
  shows "first_minimum ds j"
proof (cases ds)
  case Nil
  with assms show ?thesis by simp
next
  case (Cons x xs)
  with assms have x: "x \<noteq> NaN" and xs: "NaN \<notin> set xs"
    and run: "argmin_loop x 0 1 xs = j"
    by (auto split: if_splits)
  from argmin_loop_min [OF xs x _ run] consider
    (head) "j = 0" "\<forall>y\<in>set xs. fle x y"
    | (tail) "1 \<le> j" "j - 1 < length xs" "\<not> fle x (xs ! (j - 1))"
      "\<forall>y\<in>set xs. fle (xs ! (j - 1)) y" "\<forall>y\<in>set (take (j - 1) xs). \<not> fle y (xs ! (j - 1))"
    by auto
  then show ?thesis
  proof cases
    case head
    with x show ?thesis by (simp add: first_minimum_def Cons list_all_iff fle_refl)
  next
    case tail
    from tail(1) obtain j' where j: "j = Suc j'" by (cases j) auto
    from tail(2) xs j have v: "xs ! j' \<noteq> NaN" by (metis diff_Suc_1 nth_mem)
    from tail(3) x v j have "fle (xs ! j') x" using fle_linear by auto
    with tail j show ?thesis by (auto simp: first_minimum_def Cons list_all_iff)
  qed
qed

lemma argmin_loop_nan:
  "NaN \<in> set xs \<Longrightarrow> mp \<noteq> NaN \<Longrightarrow> argmin_loop mp mi i xs = j \<Longrightarrow>
   i \<le> j \<and> j - i < length xs \<and> xs ! (j - i) = NaN \<and> (\<forall>x\<in>set (take (j - i) xs). x \<noteq> NaN)"
proof (induction xs arbitrary: mp mi i)
  case Nil
  then show ?case by simp
next
  case (Cons x xs)
  show ?case
  proof (cases "x = NaN")
    case True
    with Cons.prems show ?thesis by (simp add: fle_nan_right)
  next
    case False
    with Cons.prems have nan: "NaN \<in> set xs" by simp
    have rec: "Suc i \<le> j \<and> j - Suc i < length xs \<and> xs ! (j - Suc i) = NaN \<and>
        (\<forall>y\<in>set (take (j - Suc i) xs). y \<noteq> NaN)"
    proof (cases "fle mp x")
      case True
      with Cons.prems have "argmin_loop mp mi (Suc i) xs = j" by simp
      from Cons.IH [OF nan Cons.prems(2) this] show ?thesis .
    next
      case nle: False
      with Cons.prems False have "argmin_loop x i (Suc i) xs = j" by simp
      from Cons.IH [OF nan False this] show ?thesis .
    qed
    then have idx: "j - i = Suc (j - Suc i)" by linarith
    with rec False show ?thesis by auto
  qed
qed

lemma argmin_first_nan:
  assumes "NaN \<in> set ds" and "argmin ds = Inr j"
  shows "first_nan ds j"
proof (cases ds)
  case Nil
  with assms show ?thesis by simp
next
  case (Cons x xs)
  show ?thesis
  proof (cases "x = NaN")
    case True
    with assms Cons show ?thesis by (simp add: first_nan_def)
  next
    case False
    with assms Cons have nan: "NaN \<in> set xs" and run: "argmin_loop x 0 1 xs = j"
      by simp_all
    from argmin_loop_nan [OF nan False run]
    have rec: "1 \<le> j" "j - 1 < length xs" "xs ! (j - 1) = NaN"
      "\<forall>y\<in>set (take (j - 1) xs). y \<noteq> NaN"
      by simp_all
    then obtain j' where j: "j = Suc j'" by (cases j) auto
    with rec False show ?thesis by (auto simp: first_nan_def Cons list_all_iff)
  qed
qed

text \<open>
  Claim C3, as the program has it. For at least one centroid,
  \<open>_get_nearest_means\<close> returns one label per point. The label of point
  \<open>i\<close> is decided by the distances that \<open>np.linalg.norm\<close> computes from
  the point to the centroids, in float64: if none of them is NaN, it is the
  lowest index at which the computed distance is least; if one is NaN, it is
  the lowest index at which the computed distance is NaN.
\<close>

theorem nearest_mean_is_first_minimum:
  assumes "means \<noteq> []"
  shows "\<exists>A. get_nearest_means L img means = Inr A \<and>
     length A = length (rows img) \<and>
     (\<forall>i<length (rows img).
        (NaN \<notin> set (dists L (rows img ! i) means) \<longrightarrow>
           first_minimum (dists L (rows img ! i) means) (A ! i)) \<and>
        (NaN \<in> set (dists L (rows img ! i) means) \<longrightarrow>
           first_nan (dists L (rows img ! i) means) (A ! i)))"
proof -
  obtain A where A: "get_nearest_means L img means = Inr A"
    using get_nearest_means_total [OF assms] by blast
  have "length A = length (rows img)"
    by (rule get_nearest_means_length [OF A])
  moreover have "first_minimum (dists L (rows img ! i) means) (A ! i)"
    if "i < length (rows img)" "NaN \<notin> set (dists L (rows img ! i) means)" for i
    using argmin_first_minimum [OF that(2) get_nearest_means_nth [OF A that(1)]] .
  moreover have "first_nan (dists L (rows img ! i) means) (A ! i)"
    if "i < length (rows img)" "NaN \<in> set (dists L (rows img ! i) means)" for i
    using argmin_first_nan [OF that(2) get_nearest_means_nth [OF A that(1)]] .
  ultimately show ?thesis
    using A by blast
qed

text \<open>Without rounding, the distance that is computed between two points of
  finite coordinates is their Euclidean distance.\<close>

lemma exact_simps:
  "np_subtract exact = fsub Val" "np_norm exact = norm_of Val" "np_mean exact = mean_of Val"
  by (simp_all add: exact_def numerics_of_def)

lemma foldl_fadd_Val: "foldl (fadd Val) (Val a) (map Val xs) = Val (a + sum_list xs)"
  by (induction xs arbitrary: a) (simp_all add: add.assoc)

lemma fsum_Val: "fsum Val (map Val xs) = Val (sum_list xs)"
  by (cases xs) (simp_all add: foldl_fadd_Val)

lemma map2_fsub_Val: "map2 (fsub Val) (map Val p) (map Val q) = map Val (map2 (-) p q)"
proof (induction p arbitrary: q)
  case Nil
  show ?case by simp
next
  case (Cons a p)
  then show ?case by (cases q) simp_all
qed

lemma norm_of_Val: "norm_of Val (map Val v) = Val (sqrt (\<Sum>x\<leftarrow>v. x * x))"
proof -
  have "map (\<lambda>x. fmul Val x x) (map Val v) = map Val (map (\<lambda>x. x * x) v)"
    by simp
  moreover have "0 \<le> (\<Sum>x\<leftarrow>v. x * x)"
    by (rule sum_list_nonneg) auto
  ultimately show ?thesis
    by (simp add: norm_of_def fsum_Val del: map_map)
qed

lemma exact_distance:
  "distance exact (map Val p) (map Val q) = Val (euclidean p q)"
proof -
  have "(\<Sum>x\<leftarrow>map2 (-) p q. x * x) = (\<Sum>(a, b)\<leftarrow>zip p q. (a - b)\<^sup>2)"
    by (simp add: power2_eq_square comp_def case_prod_unfold)
  then show ?thesis
    unfolding distance_def exact_simps map2_fsub_Val norm_of_Val euclidean_def
    by (rule arg_cong)
qed

lemma exact_dists:
  "dists exact (map Val p) (map (map Val) C) = map Val (map (euclidean p) C)"
  by (simp add: dists_def exact_distance)

theorem nearest_mean_is_first_minimum_witness:
  "[[Val 0], [Val 10]] \<noteq> [] \<and>
   (\<exists>A. get_nearest_means exact (of_reals 1 [[0], [5], [10]]) [[Val 0], [Val 10]] = Inr A \<and>
     length A = length (rows (of_reals 1 [[0], [5], [10]])) \<and>
     (\<forall>i<length (rows (of_reals 1 [[0], [5], [10]])).
        (NaN \<notin> set (dists exact (rows (of_reals 1 [[0], [5], [10]]) ! i) [[Val 0], [Val 10]]) \<longrightarrow>
           first_minimum (dists exact (rows (of_reals 1 [[0], [5], [10]]) ! i) [[Val 0], [Val 10]])
             (A ! i)) \<and>
        (NaN \<in> set (dists exact (rows (of_reals 1 [[0], [5], [10]]) ! i) [[Val 0], [Val 10]]) \<longrightarrow>
           first_nan (dists exact (rows (of_reals 1 [[0], [5], [10]]) ! i) [[Val 0], [Val 10]])
             (A ! i)))) \<and>
   dists exact [Val 5] [[Val 0], [Val 10]] = [Val 5, Val 5] \<and>
   get_nearest_means exact (of_reals 1 [[0], [5], [10]]) [[Val 0], [Val 10]] = Inr [0, 0, 1]"
proof -
  have h: "[[Val 0], [Val 10]] \<noteq> []" by simp
  have d: "dists exact [Val 5] [[Val 0], [Val 10]] = [Val 5, Val 5]"
    by (simp add: dists_def distance_def exact_simps norm_of_def)
  have ev: "get_nearest_means exact (of_reals 1 [[0], [5], [10]]) [[Val 0], [Val 10]] =
      Inr [0, 0, 1]"
    by (simp add: get_nearest_means_def of_reals_def dists_def distance_def exact_simps norm_of_def)
  show ?thesis
    using nearest_mean_is_first_minimum [OF h, of exact "of_reals 1 [[0], [5], [10]]"] h d ev
    by blast
qed


subsection \<open>Rounding to binary64 at some numbers\<close>

lemma round64_zero: "round64 0 = Val 0"
  by (simp add: round64_def)

lemma round64_one: "round64 1 = Val 1"
proof -
  have e: "max (\<lfloor>log 2 \<bar>1::real\<bar>\<rfloor> - 52) (- 1074) = - 52" by simp
  have p: "(2::real) powr of_int (- 52) = 1 / 2 ^ 52"
    by (simp add: powr_neg_numeral)
  have q: "round_half_even (1 / (1 / 2 ^ 52)) = 2 ^ 52"
    by (simp add: round_half_even_def Let_def)
  show ?thesis
    unfolding round64_def Let_def e p q by simp
qed

lemma floor_log2_third: "\<lfloor>log 2 \<bar>1 / 3 :: real\<bar>\<rfloor> = - 2"
proof -
  have "\<lfloor>log 2 (1 / 3 :: real)\<rfloor> = - 2"
    by (subst floor_log_eq_powr_iff) (simp_all add: powr_neg_numeral)
  then show ?thesis by simp
qed

lemma round64_third: "round64 (1 / 3) = Val (6004799503160661 / 2 ^ 54)"
proof -
  have e: "max (\<lfloor>log 2 \<bar>1 / 3 :: real\<bar>\<rfloor> - 52) (- 1074) = - 54"
    unfolding floor_log2_third by simp
  have p: "(2::real) powr of_int (- 54) = 1 / 2 ^ 54"
    by (simp add: powr_neg_numeral)
  have q: "round_half_even (1 / 3 / (1 / 2 ^ 54)) = 6004799503160661"
    by (simp add: round_half_even_def Let_def)
  have "round64 (1 / 3) =
      (let y = of_int (round_half_even (1 / 3 / (1 / 2 ^ 54))) * (1 / 2 ^ 54)
       in if 2 ^ 1024 \<le> \<bar>y\<bar> then (if (0::real) < 1 / 3 then PInf else NInf) else Val y)"
    unfolding round64_def Let_def e p by simp
  also have "\<dots> = Val (6004799503160661 / 2 ^ 54)"
    unfolding q Let_def by simp
  finally show ?thesis .
qed

lemma third_not_binary64: "(6004799503160661 / 2 ^ 54 :: real) \<noteq> 1 / 3"
  by simp

lemma binary64_mean_001: "np_mean binary64 [Val 0, Val 0, Val 1] = Val (6004799503160661 / 2 ^ 54)"
  by (simp add: binary64_def numerics_of_def mean_of_def round64_zero round64_one round64_third)

subsection \<open>Recomputed centroids\<close>

lemma zip_nth_upt:
  "length xs = length ys \<Longrightarrow> zip xs ys = map (\<lambda>i. (xs ! i, ys ! i)) [0..<length ys]"
  by (rule nth_equalityI) simp_all

lemma select_rows_members:
  assumes "length A = length P"
  shows "select_rows P A k = map (\<lambda>i. P ! i) (members A k)"
proof -
  have "zip P A = map (\<lambda>i. (P ! i, A ! i)) [0..<length A]"
    using assms by (simp add: zip_nth_upt)
  then show ?thesis
    by (simp add: select_rows_def members_def filter_map comp_def)
qed

lemma members_less: "i \<in> set (members A k) \<Longrightarrow> i < length A"
  by (simp add: members_def)

lemma mean_axis0_nth:
  "j < c \<Longrightarrow> mean_axis0 L c rs ! j = np_mean L (map (\<lambda>r. r ! j) rs)"
  by (simp add: mean_axis0_def)

lemma mean_axis0_empty:
  "np_mean L [] = NaN \<Longrightarrow> mean_axis0 L c [] = replicate c NaN"
  by (simp add: mean_axis0_def map_replicate_const)

lemma get_centroids_rows:
  assumes len: "length A = length (rows img)"
  shows "\<exists>C. get_centroids L img A K = Inr C \<and> length C = nat K \<and>
    (\<forall>k<nat K. length (C ! k) = ncols img \<and>
       (\<forall>j<ncols img. C ! k ! j = np_mean L (map (\<lambda>i. rows img ! i ! j) (members A k))) \<and>
       (np_mean L [] = NaN \<and> members A k = [] \<longrightarrow> C ! k = replicate (ncols img) NaN))"
proof -
  let ?C = "map (\<lambda>k. mean_axis0 L (ncols img) (select_rows (rows img) A k)) [0..<nat K]"
  have C: "get_centroids L img A K = Inr ?C"
    by (rule get_centroids_ok [OF len])
  have row: "?C ! k = mean_axis0 L (ncols img) (map (\<lambda>i. rows img ! i) (members A k))"
    if "k < nat K" for k
    using that by (simp add: select_rows_members [OF len])
  have "length (?C ! k) = ncols img \<and>
       (\<forall>j<ncols img. ?C ! k ! j = np_mean L (map (\<lambda>i. rows img ! i ! j) (members A k))) \<and>
       (np_mean L [] = NaN \<and> members A k = [] \<longrightarrow> ?C ! k = replicate (ncols img) NaN)"
    if k: "k < nat K" for k
    unfolding row [OF k]
    by (auto simp: mean_axis0_nth comp_def mean_axis0_empty) (simp add: mean_axis0_def)
  with C show ?thesis by simp
qed

lemma get_centroids_mismatch:
  "0 < K \<Longrightarrow> length A \<noteq> length (rows img) \<Longrightarrow>
   get_centroids L img A K = Inl (IndexError ''boolean index did not match indexed array'')"
  by (simp add: get_centroids_def)

text \<open>Without rounding, the mean that is computed of finite numbers is
  their arithmetic mean; the mean of no numbers is NaN in both
  arithmetics.\<close>

lemma exact_mean:
  "np_mean exact (map Val xs) = (if xs = [] then NaN else Val (arithmetic_mean xs))"
  by (simp add: exact_simps mean_of_def fsum_Val arithmetic_mean_def)

lemma mean_of_empty: "mean_of rnd [] = NaN"
  by (simp add: mean_of_def)

lemma mean_empty: "np_mean exact [] = NaN" "np_mean binary64 [] = NaN"
  by (simp_all add: exact_def binary64_def numerics_of_def mean_of_empty)

text \<open>
  Claim C4, as the program has it. For a well-formed array of points, one
  label per point and any \<open>K\<close>, \<open>_get_centroids\<close> raises nothing and
  returns \<open>K\<close> rows (none for a negative \<open>K\<close>) of the points' dimension.
  Coordinate \<open>j\<close> of row \<open>k\<close> is what \<open>mean\<close> computes in float64 of that
  coordinate of the points labelled \<open>k\<close>; when no point is labelled \<open>k\<close> the
  row is the vector of NaN, the mean of no numbers being NaN.
\<close>

theorem centroid_is_cluster_mean:
  assumes "wf_array img" and "length A = length (rows img)"
  shows "\<exists>C. get_centroids L img A K = Inr C \<and> length C = nat K \<and>
    (\<forall>k<nat K. length (C ! k) = ncols img \<and>
       (\<forall>j<ncols img. C ! k ! j = np_mean L (map (\<lambda>i. rows img ! i ! j) (members A k))) \<and>
       (np_mean L [] = NaN \<and> members A k = [] \<longrightarrow> C ! k = replicate (ncols img) NaN))"
  by (rule get_centroids_rows [OF assms(2)])

theorem centroid_is_cluster_mean_witness:
  "wf_array (of_reals 2 [[0, 0], [0, 1], [10, 10], [10, 11]]) \<and>
   length [0, 0, 2, 2 :: nat] = length (rows (of_reals 2 [[0, 0], [0, 1], [10, 10], [10, 11]])) \<and>
   (\<exists>C. get_centroids exact (of_reals 2 [[0, 0], [0, 1], [10, 10], [10, 11]]) [0, 0, 2, 2] 3 =
        Inr C \<and> length C = nat 3 \<and>
    (\<forall>k<nat 3. length (C ! k) = ncols (of_reals 2 [[0, 0], [0, 1], [10, 10], [10, 11]]) \<and>
       (\<forall>j<ncols (of_reals 2 [[0, 0], [0, 1], [10, 10], [10, 11]]).
          C ! k ! j = np_mean exact
            (map (\<lambda>i. rows (of_reals 2 [[0, 0], [0, 1], [10, 10], [10, 11]]) ! i ! j)
               (members [0, 0, 2, 2] k))) \<and>
       (np_mean exact [] = NaN \<and> members [0, 0, 2, 2] k = [] \<longrightarrow>
          C ! k = replicate (ncols (of_reals 2 [[0, 0], [0, 1], [10, 10], [10, 11]])) NaN))) \<and>
   np_mean exact [] = NaN \<and> members [0, 0, 2, 2] 1 = [] \<and>
   get_centroids exact (of_reals 2 [[0, 0], [0, 1], [10, 10], [10, 11]]) [0, 0, 2, 2] 3 =
     Inr [[Val 0, Val (1 / 2)], [NaN, NaN], [Val 10, Val (21 / 2)]]"
proof -
  let ?img = "of_reals 2 [[0, 0], [0, 1], [10, 10], [10, 11]]"
  have h1: "wf_array ?img"
    by (simp add: wf_array_def of_reals_def)
  have h2: "length [0, 0, 2, 2 :: nat] = length (rows ?img)"
    by (simp add: of_reals_def)
  have m1: "members [0, 0, 2, 2] 1 = []"
    by (simp add: members_def upt_rec numeral_nat)
  have ev: "get_centroids exact ?img [0, 0, 2, 2] 3 =
     Inr [[Val 0, Val (1 / 2)], [NaN, NaN], [Val 10, Val (21 / 2)]]"
    by (simp add: of_reals_def get_centroids_def mean_axis0_def select_rows_def
        exact_simps mean_of_def upt_rec numeral_nat)
  show ?thesis
    using centroid_is_cluster_mean [OF h1 h2, of exact 3] h1 h2 mean_empty(1) m1 ev
    by (iprover intro: conjI)
qed

text \<open>
  The claim as the specification states it fails, since the mean is computed
  in float64: the one cluster of the points 0, 0 and 1 has arithmetic mean
  \<open>1/3\<close>, which is no binary64 number, and the centroid is the binary64
  number nearest to it.
\<close>

theorem centroid_is_cluster_mean_counterexample:
  "get_centroids binary64 \<lparr>ncols = 1, rows = [[Val 0], [Val 0], [Val 1]]\<rparr> [0, 0, 0] 1 =
     Inr [[Val (6004799503160661 / 2 ^ 54)]] \<and>
   arithmetic_mean [0, 0, 1] = 1 / 3 \<and>
   (6004799503160661 / 2 ^ 54 :: real) \<noteq> 1 / 3"
  by (simp add: get_centroids_def mean_axis0_def select_rows_def binary64_mean_001
      arithmetic_mean_def)

subsection \<open>One cluster\<close>

lemma argmin_singleton: "argmin [x] = Inr 0"
  by simp

lemma nearest_loop_single:
  "nearest_loop L ps [c] = Inr (replicate (length ps) 0)"
  by (induction ps) (simp_all add: dists_def)

lemma get_nearest_means_single:
  "get_nearest_means L img [c] = Inr (replicate (length (rows img)) 0)"
  by (simp add: get_nearest_means_def nearest_loop_single)

lemma select_rows_all: "select_rows P (replicate (length P) 0) 0 = P"
proof -
  have "filter (\<lambda>(p, l). l = 0) (zip P (replicate (length P) (0::nat))) =
      zip P (replicate (length P) 0)"
    by (rule filter_True) (auto dest: set_zip_rightD)
  then show ?thesis
    by (simp add: select_rows_def)
qed

lemma get_centroids_single:
  "get_centroids L img (replicate (length (rows img)) 0) 1 =
     Inr [mean_axis0 L (ncols img) (rows img)]"
  by (simp add: get_centroids_def select_rows_all)

lemma cluster_single:
  assumes ne: "rows img \<noteq> []"
    and perm: "is_permutation (length (rows img)) perm" and it: "1 \<le> iterations"
  shows "cluster L img 1 iterations perm =
     Inr \<lparr>centroids = [mean_axis0 L (ncols img) (rows img)],
          labels = replicate (length (rows img)) 0,
          image_reconstructed =
            replicate (length (rows img)) (mean_axis0 L (ncols img) (rows img))\<rparr>"
proof -
  have K: "(1::int) \<le> 1" "1 \<le> int (length (rows img))"
    using ne by (simp_all add: Suc_leI)
  obtain Cm A C where Cm: "length Cm = nat 1"
    and A: "get_nearest_means L img Cm = Inr A"
    and C: "get_centroids L img A 1 = Inr C"
    and run: "cluster L img 1 iterations perm =
       Inr \<lparr>centroids = C, labels = A, image_reconstructed = map (\<lambda>a. C ! (a mod 256)) A\<rparr>"
    using cluster_valid [OF K perm it] by blast
  from Cm obtain c where "Cm = [c]"
    by (cases Cm) auto
  with A have A_eq: "A = replicate (length (rows img)) 0"
    by (simp add: get_nearest_means_single)
  with C have C_eq: "C = [mean_axis0 L (ncols img) (rows img)]"
    by (simp add: get_centroids_single)
  show ?thesis
    unfolding run A_eq C_eq by (simp add: map_replicate_const)
qed

text \<open>
  Claim C8, as the program has it. With \<open>K = 1\<close>, a non-empty well-formed
  array of points and at least one iteration, \<open>cluster\<close> returns, every label
  is 0, and there is one centroid: coordinate \<open>j\<close> of it is what \<open>mean\<close>
  computes in float64 of that coordinate of all points.
\<close>

theorem single_cluster_mean:
  assumes "rows img \<noteq> []" and "wf_array img"
    and "is_permutation (length (rows img)) perm" and "1 \<le> iterations"
  shows "\<exists>r. cluster L img 1 iterations perm = Inr r \<and>
     labels r = replicate (length (rows img)) 0 \<and>
     centroids r = [map (\<lambda>j. np_mean L (map (\<lambda>p. p ! j) (rows img))) [0..<ncols img]]"
  using cluster_single [OF assms(1,3,4), of L] by (simp add: mean_axis0_def)

theorem single_cluster_mean_witness:
  "rows (of_reals 2 [[0, 0], [0, 1], [10, 10], [10, 11]]) \<noteq> [] \<and>
   wf_array (of_reals 2 [[0, 0], [0, 1], [10, 10], [10, 11]]) \<and>
   is_permutation (length (rows (of_reals 2 [[0, 0], [0, 1], [10, 10], [10, 11]]))) [2, 0, 3, 1] \<and>
   (1::int) \<le> 3 \<and>
   (\<exists>r. cluster exact (of_reals 2 [[0, 0], [0, 1], [10, 10], [10, 11]]) 1 3 [2, 0, 3, 1] = Inr r \<and>
     labels r = [0, 0, 0, 0] \<and>
     centroids r = [[Val 5, Val (11 / 2)]])"
proof -
  let ?img = "of_reals 2 [[0, 0], [0, 1], [10, 10], [10, 11]]"
  have h1: "rows ?img \<noteq> []" by (simp add: of_reals_def)
  have h2: "wf_array ?img" by (simp add: wf_array_def of_reals_def)
  have h3: "is_permutation (length (rows ?img)) [2, 0, 3, 1]"
    by (simp add: of_reals_def is_permutation_def)
  have h4: "(1::int) \<le> 3" by simp
  have ev: "[map (\<lambda>j. np_mean exact (map (\<lambda>p. p ! j) (rows ?img))) [0..<ncols ?img]] =
      [[Val 5, Val (11 / 2)]]"
    by (simp add: of_reals_def exact_simps mean_of_def upt_rec numeral_nat)
  have rep: "replicate (length (rows ?img)) (0::nat) = [0, 0, 0, 0]"
    by (simp add: of_reals_def numeral_nat)
  show ?thesis
    using single_cluster_mean [OF h1 h2 h3 h4, of exact] h1 h2 h3 h4 unfolding ev rep by blast
qed

text \<open>
  The claim as the specification states it fails, since the mean is computed
  in float64: the points 0, 0 and 1 have arithmetic mean \<open>1/3\<close>, and the
  centroid is the binary64 number nearest to it.
\<close>

theorem single_cluster_mean_counterexample:
  "cluster binary64 \<lparr>ncols = 1, rows = [[Val 0], [Val 0], [Val 1]]\<rparr> 1 1 [0, 1, 2] =
     Inr \<lparr>centroids = [[Val (6004799503160661 / 2 ^ 54)]], labels = [0, 0, 0],
          image_reconstructed =
            [[Val (6004799503160661 / 2 ^ 54)], [Val (6004799503160661 / 2 ^ 54)],
             [Val (6004799503160661 / 2 ^ 54)]]\<rparr> \<and>
   arithmetic_mean [0, 0, 1] = 1 / 3 \<and>
   (6004799503160661 / 2 ^ 54 :: real) \<noteq> 1 / 3"
proof -
  let ?img = "\<lparr>ncols = 1, rows = [[Val 0], [Val 0], [Val 1]]\<rparr>"
  have ne: "rows ?img \<noteq> []" by simp
  have perm: "is_permutation (length (rows ?img)) [0, 1, 2]"
    by (simp add: is_permutation_def)
  have m: "mean_axis0 binary64 (ncols ?img) (rows ?img) = [Val (6004799503160661 / 2 ^ 54)]"
    by (simp add: mean_axis0_def binary64_mean_001)
  have "cluster binary64 ?img 1 1 [0, 1, 2] =
     Inr \<lparr>centroids = [[Val (6004799503160661 / 2 ^ 54)]], labels = [0, 0, 0],
          image_reconstructed =
            [[Val (6004799503160661 / 2 ^ 54)], [Val (6004799503160661 / 2 ^ 54)],
             [Val (6004799503160661 / 2 ^ 54)]]\<rparr>"
    using cluster_single [OF ne perm, of 1 binary64] unfolding m
    by (simp add: numeral_nat)
  then show ?thesis
    by (simp add: arithmetic_mean_def)
qed

subsection \<open>As many clusters as points\<close>

lemma is_permutation_set:
  assumes "is_permutation n perm"
  shows "set perm = {0..<n}"
proof (rule card_subset_eq)
  show "finite {0..<n}" by simp
  show "set perm \<subseteq> {0..<n}"
    using assms by (auto simp: is_permutation_def list_all_iff)
  show "card (set perm) = card {0..<n}"
    using assms by (simp add: is_permutation_def distinct_card)
qed

lemma is_permutation_index:
  assumes "is_permutation n perm" and "i < n"
  shows "\<exists>j<n. perm ! j = i"
proof -
  from assms have "i \<in> set perm" by (simp add: is_permutation_set)
  then obtain j where "j < length perm" "perm ! j = i"
    by (auto simp: in_set_conv_nth)
  with assms(1) show ?thesis by (auto simp: is_permutation_def)
qed

lemma is_permutation_nth_less:
  "is_permutation n perm \<Longrightarrow> j < n \<Longrightarrow> perm ! j < n"
  by (auto simp: is_permutation_def list_all_length)

lemma is_permutation_inj:
  "is_permutation n perm \<Longrightarrow> j < n \<Longrightarrow> k < n \<Longrightarrow> perm ! j = perm ! k \<Longrightarrow> j = k"
  by (auto simp: is_permutation_def nth_eq_iff_index_eq)

lemma filter_eq_upt: "x < n \<Longrightarrow> filter (\<lambda>i. i = x) [0..<n] = [x]"
proof (induction n)
  case 0
  then show ?case by simp
next
  case (Suc n)
  show ?case
  proof (cases "x = n")
    case True
    have "filter (\<lambda>i. i = n) [0..<n] = []"
      by (simp add: filter_empty_conv)
    with True show ?thesis by simp
  next
    case False
    with Suc show ?thesis by simp
  qed
qed

lemma cluster_all_points:
  assumes ne: "rows img \<noteq> []" and wf: "wf_array img"
    and perm: "is_permutation (length (rows img)) perm"
    and self: "\<forall>i<length (rows img). distance L (rows img ! i) (rows img ! i) = Val 0"
    and apart: "\<forall>i<length (rows img). \<forall>j<length (rows img). i \<noteq> j \<longrightarrow>
       distance L (rows img ! i) (rows img ! j) \<noteq> NaN \<and>
       \<not> fle (distance L (rows img ! i) (rows img ! j)) (Val 0)"
    and single: "\<forall>i<length (rows img). \<forall>j<ncols img.
       np_mean L [rows img ! i ! j] = rows img ! i ! j"
  shows "\<exists>A. cluster L img (int (length (rows img))) 1 perm =
       Inr \<lparr>centroids = map (\<lambda>k. rows img ! k) perm, labels = A,
            image_reconstructed = map (\<lambda>a. map (\<lambda>k. rows img ! k) perm ! (a mod 256)) A\<rparr> \<and>
     length A = length (rows img) \<and>
     (\<forall>i<length (rows img). A ! i < length (rows img) \<and> perm ! (A ! i) = i)"
proof -
  let ?P = "rows img"
  let ?n = "length ?P"
  let ?C = "map (\<lambda>k. ?P ! k) perm"
  have plen: "length perm = ?n" using perm by (simp add: is_permutation_def)
  have K: "1 \<le> int ?n" "int ?n \<le> int ?n"
    using ne by (simp_all add: Suc_leI)
  have C0: "map (\<lambda>i. ?P ! i) (take (nat (int ?n)) perm) = ?C"
    by (simp add: plen)
  obtain Cm A C where Cm: "centroids_after_rounds L img (int ?n) ?C (nat 1 - 1) = Inr Cm"
    and A: "get_nearest_means L img Cm = Inr A"
    and C: "get_centroids L img A (int ?n) = Inr C"
    and run: "cluster L img (int ?n) 1 perm =
       Inr \<lparr>centroids = C, labels = A, image_reconstructed = map (\<lambda>a. C ! (a mod 256)) A\<rparr>"
    using cluster_valid [OF K perm, of 1 L] unfolding C0 by auto
  from Cm have "Cm = ?C" by simp
  with A have A': "get_nearest_means L img ?C = Inr A" by simp
  have lenA: "length A = ?n"
    by (rule get_nearest_means_length [OF A])
  have lab: "A ! i < ?n \<and> perm ! (A ! i) = i" if i: "i < ?n" for i
  proof -
    let ?ds = "dists L (?P ! i) ?C"
    have ds: "?ds ! k = distance L (?P ! i) (?P ! (perm ! k))" if "k < ?n" for k
      using that by (simp add: dists_def plen)
    have len: "length ?ds = ?n" by (simp add: dists_def plen)
    have arg: "argmin ?ds = Inr (A ! i)"
      by (rule get_nearest_means_nth [OF A' i])
    then have a: "A ! i < ?n" using argmin_less len by fastforce
    have nonan: "NaN \<notin> set ?ds"
    proof
      assume "NaN \<in> set ?ds"
      then obtain k where k: "k < ?n" "?ds ! k = NaN"
        by (metis in_set_conv_nth len)
      have pk: "perm ! k < ?n" by (rule is_permutation_nth_less [OF perm k(1)])
      show False
      proof (cases "perm ! k = i")
        case True
        with k ds [OF k(1)] self i show False by simp
      next
        case False
        with apart i pk have "distance L (?P ! i) (?P ! (perm ! k)) \<noteq> NaN" by metis
        with k ds [OF k(1)] show False by simp
      qed
    qed
    have fm: "first_minimum ?ds (A ! i)"
      by (rule argmin_first_minimum [OF nonan arg])
    obtain j where j: "j < ?n" "perm ! j = i"
      using is_permutation_index [OF perm i] by blast
    have "?ds ! j = Val 0"
      using ds [OF j(1)] j(2) self i by simp
    moreover have "?ds ! j \<in> set ?ds"
      using j(1) len by (metis nth_mem)
    ultimately have le: "fle (?ds ! (A ! i)) (Val 0)"
      using fm by (auto simp: first_minimum_def list_all_iff)
    have pa: "perm ! (A ! i) < ?n" by (rule is_permutation_nth_less [OF perm a])
    have "perm ! (A ! i) = i"
    proof (rule ccontr)
      assume "perm ! (A ! i) \<noteq> i"
      with apart i pa have "\<not> fle (distance L (?P ! i) (?P ! (perm ! (A ! i)))) (Val 0)"
        by metis
      with le ds [OF a] show False by simp
    qed
    with a show ?thesis by simp
  qed
  obtain C' where C': "get_centroids L img A (int ?n) = Inr C'" "length C' = nat (int ?n)"
    and rowsC: "\<forall>k<nat (int ?n). length (C' ! k) = ncols img \<and>
       (\<forall>j<ncols img. C' ! k ! j = np_mean L (map (\<lambda>i. ?P ! i ! j) (members A k))) \<and>
       (np_mean L [] = NaN \<and> members A k = [] \<longrightarrow> C' ! k = replicate (ncols img) NaN)"
    using get_centroids_rows [OF lenA, of L "int ?n"] by blast
  from C C'(1) have CC: "C' = C" by simp
  have row: "C ! k = ?C ! k" if k: "k < ?n" for k
  proof -
    have pk: "perm ! k < ?n" by (rule is_permutation_nth_less [OF perm k])
    have "(A ! i = k) = (i = perm ! k)" if "i < ?n" for i
    proof
      assume "A ! i = k"
      with lab [OF that] show "i = perm ! k" by simp
    next
      assume "i = perm ! k"
      with lab [OF that] have "perm ! (A ! i) = perm ! k" "A ! i < ?n" by simp_all
      with k show "A ! i = k" using is_permutation_inj [OF perm] by blast
    qed
    then have "filter (\<lambda>i. A ! i = k) [0..<?n] = filter (\<lambda>i. i = perm ! k) [0..<?n]"
      by (intro filter_cong refl) simp
    then have mem: "members A k = [perm ! k]"
      using pk by (simp add: members_def lenA filter_eq_upt)
    from rowsC k have lk: "length (C ! k) = ncols img"
      and ent: "\<forall>j<ncols img. C ! k ! j = np_mean L (map (\<lambda>i. ?P ! i ! j) (members A k))"
      unfolding CC by simp_all
    have lp: "length (?P ! (perm ! k)) = ncols img"
      using wf pk by (simp add: wf_array_def list_all_length)
    have "C ! k = ?P ! (perm ! k)"
    proof (rule nth_equalityI)
      show "length (C ! k) = length (?P ! (perm ! k))" by (simp add: lk lp)
    next
      fix j
      assume "j < length (C ! k)"
      then have j: "j < ncols img" by (simp add: lk)
      with ent have "C ! k ! j = np_mean L [?P ! (perm ! k) ! j]" by (simp add: mem)
      also have "\<dots> = ?P ! (perm ! k) ! j" using single pk j by simp
      finally show "C ! k ! j = ?P ! (perm ! k) ! j" .
    qed
    then show ?thesis using k by (simp add: plen)
  qed
  have cent: "C = ?C"
    using C'(2) row unfolding CC by (intro nth_equalityI) (simp_all add: plen)
  show ?thesis
    using run lenA lab unfolding cent by blast
qed

text \<open>What the run with as many clusters as points needs of the arithmetic
  holds without rounding for points of finite coordinates that are pairwise
  different; in binary64 a point of finite coordinates is at distance 0 from
  itself, and the mean of one binary64 number is that number.\<close>

lemma sum_squares_nonneg: "0 \<le> (\<Sum>(a, b)\<leftarrow>zip p q. (a - b)\<^sup>2)" for p q :: "real list"
  by (rule sum_list_nonneg) auto

lemma sum_squares_zero_iff:
  "length p = length q \<Longrightarrow> (\<Sum>(a, b)\<leftarrow>zip p q. (a - b)\<^sup>2) = 0 \<longleftrightarrow> p = q"
  for p q :: "real list"
proof (induction p q rule: list_induct2)
  case Nil
  show ?case by simp
next
  case (Cons a p b q)
  have "(a - b)\<^sup>2 + (\<Sum>(a, b)\<leftarrow>zip p q. (a - b)\<^sup>2) = 0 \<longleftrightarrow>
      (a - b)\<^sup>2 = 0 \<and> (\<Sum>(a, b)\<leftarrow>zip p q. (a - b)\<^sup>2) = 0"
    by (rule add_nonneg_eq_0_iff) (simp_all add: sum_squares_nonneg)
  with Cons.IH show ?case by simp
qed

lemma euclidean_nonneg: "0 \<le> euclidean p q"
  by (simp add: euclidean_def sum_squares_nonneg)

lemma euclidean_zero_iff: "length p = length q \<Longrightarrow> euclidean p q = 0 \<longleftrightarrow> p = q"
  by (simp add: euclidean_def sum_squares_zero_iff)

lemma exact_self_distance: "distance exact (map Val p) (map Val p) = Val 0"
  by (simp add: exact_distance euclidean_zero_iff)

lemma exact_apart:
  assumes "length p = length q" and "p \<noteq> q"
  shows "distance exact (map Val p) (map Val q) \<noteq> NaN \<and>
    \<not> fle (distance exact (map Val p) (map Val q)) (Val 0)"
proof -
  have "euclidean p q \<noteq> 0" using assms by (simp add: euclidean_zero_iff)
  with euclidean_nonneg [of p q] have "0 < euclidean p q" by simp
  then show ?thesis by (simp add: exact_distance)
qed

lemma exact_mean_single: "np_mean exact [Val x] = Val x"
  by (simp add: exact_simps mean_of_def)

lemma foldl_fadd_zero:
  "rnd 0 = Val 0 \<Longrightarrow> foldl (fadd rnd) (Val 0) (replicate m (Val 0)) = Val 0"
  by (induction m) simp_all

lemma binary64_self_distance: "distance binary64 (map Val p) (map Val p) = Val 0"
proof -
  have d: "map2 (fsub round64) (map Val p) (map Val p) = replicate (length p) (Val 0)"
    by (induction p) (simp_all add: round64_zero)
  have "fsum round64 (replicate m (Val 0)) = Val 0" for m
    by (cases m) (simp_all add: foldl_fadd_zero round64_zero)
  then show ?thesis
    by (simp add: distance_def binary64_def numerics_of_def norm_of_def d round64_zero)
qed

lemma binary64_mean_single: "round64 x = Val x \<Longrightarrow> np_mean binary64 [Val x] = Val x"
  by (simp add: binary64_def numerics_of_def mean_of_def)

lemma exact_all_points:
  assumes "list_all (\<lambda>p. length p = c) P" and "distinct P"
  shows "\<forall>i<length (rows (of_reals c P)).
      distance exact (rows (of_reals c P) ! i) (rows (of_reals c P) ! i) = Val 0"
    and "\<forall>i<length (rows (of_reals c P)). \<forall>j<length (rows (of_reals c P)). i \<noteq> j \<longrightarrow>
       distance exact (rows (of_reals c P) ! i) (rows (of_reals c P) ! j) \<noteq> NaN \<and>
       \<not> fle (distance exact (rows (of_reals c P) ! i) (rows (of_reals c P) ! j)) (Val 0)"
    and "\<forall>i<length (rows (of_reals c P)). \<forall>j<ncols (of_reals c P).
       np_mean exact [rows (of_reals c P) ! i ! j] = rows (of_reals c P) ! i ! j"
proof -
  show "\<forall>i<length (rows (of_reals c P)).
      distance exact (rows (of_reals c P) ! i) (rows (of_reals c P) ! i) = Val 0"
    by (simp add: of_reals_def exact_self_distance)
  show "\<forall>i<length (rows (of_reals c P)). \<forall>j<length (rows (of_reals c P)). i \<noteq> j \<longrightarrow>
       distance exact (rows (of_reals c P) ! i) (rows (of_reals c P) ! j) \<noteq> NaN \<and>
       \<not> fle (distance exact (rows (of_reals c P) ! i) (rows (of_reals c P) ! j)) (Val 0)"
  proof (intro allI impI)
    fix i j
    assume i: "i < length (rows (of_reals c P))" and j: "j < length (rows (of_reals c P))"
      and ij: "i \<noteq> j"
    then have i': "i < length P" and j': "j < length P" by (simp_all add: of_reals_def)
    with assms(1) have "length (P ! i) = length (P ! j)" by (simp add: list_all_length)
    moreover from assms(2) i' j' ij have "P ! i \<noteq> P ! j" by (simp add: nth_eq_iff_index_eq)
    ultimately show "distance exact (rows (of_reals c P) ! i) (rows (of_reals c P) ! j) \<noteq> NaN \<and>
       \<not> fle (distance exact (rows (of_reals c P) ! i) (rows (of_reals c P) ! j)) (Val 0)"
      using i' j' by (simp add: of_reals_def exact_apart)
  qed
  show "\<forall>i<length (rows (of_reals c P)). \<forall>j<ncols (of_reals c P).
       np_mean exact [rows (of_reals c P) ! i ! j] = rows (of_reals c P) ! i ! j"
  proof (intro allI impI)
    fix i j
    assume i: "i < length (rows (of_reals c P))" and j: "j < ncols (of_reals c P)"
    then have i': "i < length P" and "j < c" by (simp_all add: of_reals_def)
    with assms(1) have "j < length (P ! i)" by (simp add: list_all_length)
    with i' show "np_mean exact [rows (of_reals c P) ! i ! j] = rows (of_reals c P) ! i ! j"
      by (simp add: of_reals_def exact_mean_single)
  qed
qed

lemma wf_of_reals: "list_all (\<lambda>p. length p = c) P \<Longrightarrow> wf_array (of_reals c P)"
  by (simp add: wf_array_def of_reals_def list_all_iff)

text \<open>
  Claim C9, as the program has it. Let \<open>K = n\<close>, and let any two points at
  different positions be at a computed distance that is a number greater
  than 0 (so the points are pairwise different, and no difference is lost to
  rounding or underflow); let also, as float64 has it for finite numbers,
  every point be at computed distance 0 from itself and the mean of a single
  coordinate be that coordinate. Then after one iteration the centroids are
  the points in the order in which they were drawn, the labels are a
  permutation of \<open>0, \<dots>, n - 1\<close> (the inverse of the draw) and each point
  is bound to the centroid that equals it.
\<close>

theorem all_points_are_centroids:
  assumes "rows img \<noteq> []" and "wf_array img"
    and "is_permutation (length (rows img)) perm"
    and "\<forall>i<length (rows img). distance L (rows img ! i) (rows img ! i) = Val 0"
    and "\<forall>i<length (rows img). \<forall>j<length (rows img). i \<noteq> j \<longrightarrow>
       distance L (rows img ! i) (rows img ! j) \<noteq> NaN \<and>
       \<not> fle (distance L (rows img ! i) (rows img ! j)) (Val 0)"
    and "\<forall>i<length (rows img). \<forall>j<ncols img.
       np_mean L [rows img ! i ! j] = rows img ! i ! j"
  shows "\<exists>r. cluster L img (int (length (rows img))) 1 perm = Inr r \<and>
     centroids r = map (\<lambda>k. rows img ! k) perm \<and>
     length (labels r) = length (rows img) \<and>
     distinct (labels r) \<and>
     (\<forall>i<length (rows img). labels r ! i < length (rows img) \<and> perm ! (labels r ! i) = i \<and>
        centroids r ! (labels r ! i) = rows img ! i)"
proof -
  let ?C = "map (\<lambda>k. rows img ! k) perm"
  obtain A where run: "cluster L img (int (length (rows img))) 1 perm =
       Inr \<lparr>centroids = ?C, labels = A,
            image_reconstructed = map (\<lambda>a. ?C ! (a mod 256)) A\<rparr>"
    and lenA: "length A = length (rows img)"
    and lab: "\<forall>i<length (rows img). A ! i < length (rows img) \<and> perm ! (A ! i) = i"
    using cluster_all_points [OF assms] by blast
  have plen: "length perm = length (rows img)"
    using assms(3) by (simp add: is_permutation_def)
  have "distinct A"
    unfolding distinct_conv_nth using lab lenA by metis
  moreover have "?C ! (A ! i) = rows img ! i" if "i < length (rows img)" for i
    using lab that by (simp add: plen)
  ultimately show ?thesis
    using run lenA lab by simp
qed

theorem all_points_are_centroids_witness:
  "rows (of_reals 2 [[0, 0], [0, 1], [10, 10], [10, 11]]) \<noteq> [] \<and>
   wf_array (of_reals 2 [[0, 0], [0, 1], [10, 10], [10, 11]]) \<and>
   is_permutation (length (rows (of_reals 2 [[0, 0], [0, 1], [10, 10], [10, 11]]))) [2, 0, 3, 1] \<and>
   (\<exists>r. cluster exact (of_reals 2 [[0, 0], [0, 1], [10, 10], [10, 11]])
          (int (length (rows (of_reals 2 [[0, 0], [0, 1], [10, 10], [10, 11]])))) 1
          [2, 0, 3, 1] = Inr r \<and>
     centroids r =
       map (\<lambda>k. rows (of_reals 2 [[0, 0], [0, 1], [10, 10], [10, 11]]) ! k) [2, 0, 3, 1] \<and>
     length (labels r) = length (rows (of_reals 2 [[0, 0], [0, 1], [10, 10], [10, 11]])) \<and>
     distinct (labels r) \<and>
     (\<forall>i<length (rows (of_reals 2 [[0, 0], [0, 1], [10, 10], [10, 11]])).
        labels r ! i < length (rows (of_reals 2 [[0, 0], [0, 1], [10, 10], [10, 11]])) \<and>
        [2, 0, 3, 1] ! (labels r ! i) = i \<and>
        centroids r ! (labels r ! i) =
          rows (of_reals 2 [[0, 0], [0, 1], [10, 10], [10, 11]]) ! i))"
proof -
  let ?P = "[[0, 0], [0, 1], [10, 10], [10, 11 :: real]]"
  have len: "list_all (\<lambda>p. length p = 2) ?P" by simp
  have dist: "distinct ?P" by simp
  have h1: "rows (of_reals 2 ?P) \<noteq> []" by (simp add: of_reals_def)
  have h2: "wf_array (of_reals 2 ?P)" by (rule wf_of_reals [OF len])
  have h3: "is_permutation (length (rows (of_reals 2 ?P))) [2, 0, 3, 1]"
    by (simp add: of_reals_def is_permutation_def)
  show ?thesis
    by (rule conjI [OF h1 conjI [OF h2 conjI [OF h3
          all_points_are_centroids [OF h1 h2 h3 exact_all_points [OF len dist]]]]])
qed

text \<open>
  The claim as the specification states it fails on points that repeat. Two
  equal points are both bound to the first centroid drawn; the labels
  \<open>[0, 0]\<close> are no permutation, and the second centroid, whose cluster is
  empty, is NaN and not a point. Every operation of this run is exact in
  float64.
\<close>

theorem all_points_are_centroids_counterexample:
  "cluster exact (of_reals 1 [[0], [0]]) 2 1 [0, 1] =
     Inr \<lparr>centroids = [[Val 0], [NaN]], labels = [0, 0],
          image_reconstructed = [[Val 0], [Val 0]]\<rparr>"
  by (simp add: cluster_def init_means_def random_choice_def take_rows_def of_reals_def
      get_nearest_means_def dists_def distance_def exact_simps norm_of_def mean_of_def
      get_centroids_def mean_axis0_def select_rows_def astype_uint8_def upt_rec numeral_nat)

subsection \<open>Reconstruction through eight-bit labels\<close>

lemma cluster_loop_labels_length:
  "cluster_loop L n img K (c, l) = Inr (cs, Some ls) \<Longrightarrow>
   (\<forall>l0. l = Some l0 \<longrightarrow> length l0 = length (rows img)) \<Longrightarrow> length ls = length (rows img)"
proof (induction n arbitrary: c l)
  case 0
  then show ?case by simp
next
  case (Suc n)
  then show ?case
    by (auto split: sum.splits dest: get_nearest_means_length)
qed

lemma take_rows_Inr: "take_rows a idx = Inr rs \<Longrightarrow> rs = map (\<lambda>i. a ! i) idx"
  by (auto simp: take_rows_def split: if_splits)

text \<open>
  Claim C10. When \<open>cluster\<close> returns, the reconstructed array has one row
  per pixel, and the row of pixel \<open>i\<close> is the centroid at index
  \<open>labels[i] mod 256\<close>: the label passes through \<open>astype(np.uint8)\<close>. A
  label of 256 or more (possible only for \<open>K > 256\<close>) therefore selects
  another index than the cluster the pixel was assigned to.
\<close>

theorem reconstruction_uses_low_byte:
  assumes "cluster L img K iterations perm = Inr r"
  shows "length (labels r) = length (rows img) \<and>
     length (image_reconstructed r) = length (rows img) \<and>
     (\<forall>i<length (rows img).
        image_reconstructed r ! i = centroids r ! (labels r ! i mod 256) \<and>
        (256 \<le> labels r ! i \<longrightarrow> labels r ! i mod 256 \<noteq> labels r ! i))"
proof -
  from assms obtain c0 cs ls im where
    init: "init_means img K perm = Inr c0"
    and loop: "cluster_loop L (nat iterations) img K (c0, None) = Inr (cs, Some ls)"
    and rows: "take_rows cs (map (\<lambda>a. unat (astype_uint8 a)) ls) = Inr im"
    and r: "r = \<lparr>centroids = cs, labels = ls, image_reconstructed = im\<rparr>"
    by (auto simp: cluster_def split: sum.splits option.splits if_splits)
  have len: "length ls = length (rows img)"
    using cluster_loop_labels_length [OF loop] by simp
  have im: "im = map (\<lambda>a. cs ! (a mod 256)) ls"
    using take_rows_Inr [OF rows] by (simp add: unat_astype_uint8 comp_def)
  have wrap: "a mod 256 \<noteq> a" if "256 \<le> a" for a :: nat
    using that mod_less_divisor [of 256 a] by linarith
  show ?thesis
    using len wrap by (simp add: r im)
qed

text \<open>The points \<open>[0], [1], \<dots>, [n]\<close>, used for a run with more than 256
  clusters.\<close>

lemma ramp_facts:
  fixes n :: nat
  defines "P \<equiv> map (\<lambda>k. [real k]) [0..<Suc n]"
  shows "list_all (\<lambda>p. length p = 1) P" "distinct P" "length P = Suc n"
    "is_permutation (length (rows (of_reals 1 P))) [0..<Suc n]"
proof -
  show "list_all (\<lambda>p. length p = 1) P" by (simp add: P_def list_all_iff del: upt_Suc)
  show "distinct P"
    unfolding P_def by (simp add: distinct_map inj_on_def del: upt_Suc)
  show "length P = Suc n" by (simp add: P_def)
  then show "is_permutation (length (rows (of_reals 1 P))) [0..<Suc n]"
    by (simp add: is_permutation_def of_reals_def list_all_iff del: upt_Suc)
qed

text \<open>With 257 points \<open>[0], \<dots>, [256]\<close>, \<open>K = 257\<close> and the identity as
  draw, pixel 256 has label 256 and centroid \<open>[256]\<close>, and is written with
  centroid 0, which is \<open>[0]\<close>. Every operation of this run is exact in
  float64: differences, squares and square roots of whole numbers below 257,
  and means of single numbers.\<close>

theorem reconstruction_uses_low_byte_witness:
  "\<exists>r. cluster exact (of_reals 1 (map (\<lambda>k. [real k]) [0..<Suc 256])) 257 1 [0..<Suc 256] = Inr r \<and>
     labels r ! 256 = 256 \<and>
     centroids r ! 256 = [Val 256] \<and>
     image_reconstructed r ! 256 = centroids r ! 0 \<and>
     centroids r ! 0 = [Val 0]"
proof -
  let ?P = "map (\<lambda>k. [real k]) [0..<Suc 256]"
  let ?img = "of_reals 1 ?P"
  let ?C = "map (\<lambda>k. rows ?img ! k) [0..<Suc 256]"
  have len: "length (rows ?img) = Suc 256" by (simp add: of_reals_def del: upt_Suc)
  have ne: "rows ?img \<noteq> []" by (simp add: of_reals_def del: upt_Suc)
  have wf: "wf_array ?img" by (rule wf_of_reals [OF ramp_facts(1)])
  obtain A where run: "cluster exact ?img (int (length (rows ?img))) 1 [0..<Suc 256] =
       Inr \<lparr>centroids = ?C, labels = A,
            image_reconstructed = map (\<lambda>a. ?C ! (a mod 256)) A\<rparr>"
    and lenA: "length A = length (rows ?img)"
    and lab: "\<forall>i<length (rows ?img). A ! i < length (rows ?img) \<and> [0..<Suc 256] ! (A ! i) = i"
    using cluster_all_points [OF ne wf ramp_facts(4) [of 256]
        exact_all_points [OF ramp_facts(1,2) [of 256]]]
    by blast
  let ?r = "\<lparr>centroids = ?C, labels = A,
            image_reconstructed = map (\<lambda>a. ?C ! (a mod 256)) A\<rparr>"
  have K: "int (length (rows ?img)) = 257" unfolding len by simp
  have run': "cluster exact ?img 257 1 [0..<Suc 256] = Inr ?r"
    using run unfolding K .
  have p: "(256::nat) < Suc 256" by simp
  note l = lab [unfolded len, rule_format, OF p]
  from l have lt: "0 + A ! 256 < Suc 256" by simp
  have "[0..<Suc 256] ! (A ! 256) = 0 + A ! 256"
    by (rule nth_upt [OF lt])
  with l have a: "A ! 256 = 256"
    by (metis add_0)
  have c256: "?C ! 256 = [Val 256]"
    by (simp add: of_reals_def del: upt_Suc)
  have c0: "?C ! 0 = [Val 0]"
    by (simp add: of_reals_def del: upt_Suc)
  have "\<forall>i<length (rows ?img).
        image_reconstructed ?r ! i = centroids ?r ! (labels ?r ! i mod 256) \<and>
        (256 \<le> labels ?r ! i \<longrightarrow> labels ?r ! i mod 256 \<noteq> labels ?r ! i)"
    using reconstruction_uses_low_byte [OF run'] by (elim conjE)
  moreover have "256 < length (rows ?img)"
    by (simp add: of_reals_def del: upt_Suc)
  ultimately have "image_reconstructed ?r ! 256 = centroids ?r ! (labels ?r ! 256 mod 256)"
    by blast
  then have im: "image_reconstructed ?r ! 256 = centroids ?r ! 0"
    by (simp add: a del: upt_Suc)
  show ?thesis
    using run' a c256 c0 im by (intro exI [of _ ?r]) (simp del: upt_Suc)
qed

subsection \<open>A tie of rounded distances\<close>

text \<open>Rounding a number of a known binade.\<close>

lemma round64_binade:
  assumes k: "2 powr of_int k \<le> \<bar>x\<bar>" "\<bar>x\<bar> < 2 powr of_int (k + 1)" and n: "- 1022 \<le> k"
    and r: "round_half_even (x / 2 powr of_int (k - 52)) = m"
    and b: "\<bar>of_int m * 2 powr of_int (k - 52)\<bar> < (2::real) ^ 1024"
  shows "round64 x = Val (of_int m * 2 powr of_int (k - 52))"
proof -
  have "(0::real) < 2 powr of_int k" by simp
  with k(1) have pos: "0 < \<bar>x\<bar>" by linarith
  then have x: "x \<noteq> 0" by simp
  have "\<lfloor>log 2 \<bar>x\<bar>\<rfloor> = k"
    using k pos by (subst floor_log_eq_powr_iff) simp_all
  then have e: "max (\<lfloor>log 2 \<bar>x\<bar>\<rfloor> - 52) (- 1074) = k - 52"
    using n by simp
  show ?thesis
    unfolding round64_def Let_def e r using x b by simp
qed

lemma grey_35: "round64 (35 / 255) = Val (4945129002602898 / 2 ^ 55)"
proof -
  have "round64 (35 / 255) = Val (of_int 4945129002602898 * 2 powr of_int (- 3 - 52))"
    by (rule round64_binade) (simp_all add: powr_neg_numeral round_half_even_def Let_def)
  then show ?thesis by (simp add: powr_neg_numeral)
qed

lemma grey_3: "round64 (3 / 255) = Val (6781891203569688 / 2 ^ 59)"
proof -
  have "round64 (3 / 255) = Val (of_int 6781891203569688 * 2 powr of_int (- 7 - 52))"
    by (rule round64_binade) (simp_all add: powr_neg_numeral round_half_even_def Let_def)
  then show ?thesis by (simp add: powr_neg_numeral)
qed

lemma grey_67: "round64 (67 / 255) = Val (4733194902491345 / 2 ^ 54)"
proof -
  have "round64 (67 / 255) = Val (of_int 4733194902491345 * 2 powr of_int (- 2 - 52))"
    by (rule round64_binade) (simp_all add: powr_neg_numeral round_half_even_def Let_def)
  then show ?thesis by (simp add: powr_neg_numeral)
qed

lemma grey_35_minus_3:
  "round64 (4945129002602898 / 2 ^ 55 - 6781891203569688 / 2 ^ 59) =
     Val (4521260802379792 / 2 ^ 55)"
proof -
  have "round64 (4945129002602898 / 2 ^ 55 - 6781891203569688 / 2 ^ 59) =
      Val (of_int 4521260802379792 * 2 powr of_int (- 3 - 52))"
    by (rule round64_binade) (simp_all add: powr_neg_numeral round_half_even_def Let_def)
  then show ?thesis by (simp add: powr_neg_numeral)
qed

lemma grey_35_minus_67:
  "round64 (4945129002602898 / 2 ^ 55 - 4733194902491345 / 2 ^ 54) =
     Val (- (4521260802379792 / 2 ^ 55))"
proof -
  have "round64 (4945129002602898 / 2 ^ 55 - 4733194902491345 / 2 ^ 54) =
      Val (of_int (- 4521260802379792) * 2 powr of_int (- 3 - 52))"
    by (rule round64_binade) (simp_all add: powr_neg_numeral round_half_even_def Let_def)
  then show ?thesis by (simp add: powr_neg_numeral)
qed

lemma argmin_tie: "argmin [x, x] = Inr 0"
  by (cases "x = NaN") (simp_all add: fle_refl)

lemma binary64_norm_minus: "np_norm binary64 [Val (- d)] = np_norm binary64 [Val d]"
  by (simp add: binary64_def numerics_of_def norm_of_def)

lemma grey_tie:
  "distance binary64 [Val (4945129002602898 / 2 ^ 55)] [Val (6781891203569688 / 2 ^ 59)] =
   distance binary64 [Val (4945129002602898 / 2 ^ 55)] [Val (4733194902491345 / 2 ^ 54)]"
proof -
  have s: "np_subtract binary64 = fsub round64"
    by (simp add: binary64_def numerics_of_def)
  show ?thesis
    unfolding distance_def s
    by (simp add: grey_35_minus_3 grey_35_minus_67 binary64_norm_minus del: power_numeral)
qed

lemma grey_nearest:
  "get_nearest_means binary64 \<lparr>ncols = 1, rows = [[Val (4945129002602898 / 2 ^ 55)]]\<rparr>
     [[Val (6781891203569688 / 2 ^ 59)], [Val (4733194902491345 / 2 ^ 54)]] = Inr [0]"
proof -
  let ?x = "distance binary64 [Val (4945129002602898 / 2 ^ 55)] [Val (4733194902491345 / 2 ^ 54)]"
  have "dists binary64 [Val (4945129002602898 / 2 ^ 55)]
      [[Val (6781891203569688 / 2 ^ 59)], [Val (4733194902491345 / 2 ^ 54)]] = [?x, ?x]"
    unfolding dists_def list.map grey_tie by (rule refl)
  then have "argmin (dists binary64 [Val (4945129002602898 / 2 ^ 55)]
      [[Val (6781891203569688 / 2 ^ 59)], [Val (4733194902491345 / 2 ^ 54)]]) = Inr 0"
    by (simp only: argmin_tie)
  then show ?thesis
    unfolding get_nearest_means_def by (simp del: power_numeral)
qed

lemma grey_euclidean:
  "euclidean [4945129002602898 / 2 ^ 55] [4733194902491345 / 2 ^ 54] <
   euclidean [4945129002602898 / 2 ^ 55] [6781891203569688 / 2 ^ 59]"
  by (simp add: euclidean_def)

text \<open>
  The claim as the specification states it fails in two ways. A centroid with
  a NaN coordinate (the Recompute of a cluster without points) has distance
  NaN, and \<open>np.argmin\<close> returns its position: centroid 0 is at distance 0
  from the point 0 and the label is 1; every operation of that run is exact
  in float64. And distances are compared as computed: for the grey value 35
  and the centroids of grey values 3 and 67 (each divided by 255 in binary64)
  the two differences round to the same number, the computed distances are
  equal and the label is 0, while centroid 1 is the nearer one.
\<close>

theorem nearest_mean_counterexample:
  "dists exact [Val 0] [[Val 0], [NaN]] = [Val 0, NaN] \<and>
   get_nearest_means exact \<lparr>ncols = 1, rows = [[Val 0]]\<rparr> [[Val 0], [NaN]] = Inr [1] \<and>
   get_nearest_means binary64 \<lparr>ncols = 1, rows = [[Val (4945129002602898 / 2 ^ 55)]]\<rparr>
     [[Val (6781891203569688 / 2 ^ 59)], [Val (4733194902491345 / 2 ^ 54)]] = Inr [0] \<and>
   euclidean [4945129002602898 / 2 ^ 55] [4733194902491345 / 2 ^ 54] <
     euclidean [4945129002602898 / 2 ^ 55] [6781891203569688 / 2 ^ 59]"
proof -
  have "dists exact [Val 0] [[Val 0], [NaN]] = [Val 0, NaN] \<and>
      get_nearest_means exact \<lparr>ncols = 1, rows = [[Val 0]]\<rparr> [[Val 0], [NaN]] = Inr [1]"
    by (simp add: get_nearest_means_def dists_def distance_def exact_simps norm_of_def)
  with grey_nearest grey_euclidean show ?thesis
    by (iprover intro: conjI elim: conjE)
qed

subsection \<open>Different points at computed distance zero\<close>

text \<open>What the run with as many clusters as points asks of the distances
  between different points is more than that the points differ: in binary64
  the points 0 and \<open>2 ^ - 600\<close> are at computed distance 0, the square of
  their difference being below the least positive binary64 number.\<close>

lemma round64_tiny: "round64 (1 / 2 ^ 1200) = Val 0"
proof -
  have l: "\<lfloor>log 2 \<bar>1 / 2 ^ 1200 :: real\<bar>\<rfloor> = - 1200"
    by (subst floor_log_eq_powr_iff) (simp_all add: powr_neg_numeral)
  have e: "max (\<lfloor>log 2 \<bar>1 / 2 ^ 1200 :: real\<bar>\<rfloor> - 52) (- 1074) = - 1074"
    unfolding l by simp
  have p: "(2::real) powr of_int (- 1074) = 1 / 2 ^ 1074"
    by (simp add: powr_neg_numeral)
  have q: "round_half_even (1 / 2 ^ 1200 / (1 / 2 ^ 1074)) = 0"
    by (simp add: round_half_even_def Let_def)
  show ?thesis
    unfolding round64_def Let_def e p q by simp
qed

lemma round64_small: "round64 (- (1 / 2 ^ 600)) = Val (- (1 / 2 ^ 600))"
proof -
  have "round64 (- (1 / 2 ^ 600)) = Val (of_int (- (2 ^ 52)) * 2 powr of_int (- 600 - 52))"
    by (rule round64_binade) (simp_all add: powr_neg_numeral round_half_even_def Let_def)
  then show ?thesis by (simp add: powr_neg_numeral)
qed

lemma binary64_underflow_distance:
  "distance binary64 [Val 0] [Val (1 / 2 ^ 600)] = Val 0"
proof -
  have "(1 / 2 ^ 600) * (1 / 2 ^ 600) = (1 / 2 ^ 1200 :: real)"
    by simp
  then have m: "round64 ((1 / 2 ^ 600) * (1 / 2 ^ 600)) = Val 0"
    by (simp only: round64_tiny)
  show ?thesis
    unfolding distance_def binary64_def numerics_of_def
    using m by (simp add: norm_of_def round64_small round64_zero del: power_numeral)
qed

end
